theory Spec2Isabelle
  imports Complex_Main "HOL-Library.AList"
begin

section \<open>Python values\<close>

text \<open>
  The arguments of an action and the contents of an episode index file are dynamically
  typed Python values (what \<^verbatim>\<open>json.load\<close> returns). Floats are modelled as exact
  reals; a dictionary is an association list in insertion order.
\<close>

datatype pyval =
    PNone
  | PBool bool
  | PInt int
  | PFloat real
  | PStr string
  | PList "pyval list"
  | PDict "(string \<times> pyval) list"

type_synonym pydict = "(string \<times> pyval) list"

datatype error =
    FileNotFoundError
  | JSONDecodeError
  | AttributeError
  | TypeError
  | ValueError
  | IndexError
  | KeyError
  | ZeroDivisionError
  | OverflowError
  | NotADirectoryError
  | OSError
  | EnvError

text \<open>Truth value of a Python object, as \<^verbatim>\<open>if v\<close>, \<^verbatim>\<open>not v\<close> and \<^verbatim>\<open>a or b\<close> test it.\<close>

fun truthy :: "pyval \<Rightarrow> bool" where
  "truthy PNone = False"
| "truthy (PBool b) = b"
| "truthy (PInt i) = (i \<noteq> 0)"
| "truthy (PFloat r) = (r \<noteq> 0)"
| "truthy (PStr s) = (s \<noteq> [])"
| "truthy (PList xs) = (xs \<noteq> [])"
| "truthy (PDict kvs) = (kvs \<noteq> [])"

definition py_or :: "pyval \<Rightarrow> pyval \<Rightarrow> pyval" where
  "py_or a b = (if truthy a then a else b)"

text \<open>\<^verbatim>\<open>d.get(k)\<close>: the value stored under \<open>k\<close>, or \<^verbatim>\<open>None\<close>.\<close>

definition dget :: "pydict \<Rightarrow> string \<Rightarrow> pyval" where
  "dget d k = (case map_of d k of None \<Rightarrow> PNone | Some v \<Rightarrow> v)"

text \<open>
  \<^verbatim>\<open>isinstance(v, (int, float))\<close> with the number \<open>v\<close> stands for; \<^verbatim>\<open>bool\<close> is a
  subclass of \<^verbatim>\<open>int\<close>, so \<^verbatim>\<open>True\<close> is the number 1.
\<close>

fun num_of :: "pyval \<Rightarrow> real option" where
  "num_of (PBool b) = Some (if b then 1 else 0)"
| "num_of (PInt i) = Some (of_int i)"
| "num_of (PFloat r) = Some r"
| "num_of _ = None"

text \<open>\<^verbatim>\<open>isinstance(v, int)\<close> with the integer \<open>v\<close> stands for.\<close>

fun int_of :: "pyval \<Rightarrow> int option" where
  "int_of (PBool b) = Some (if b then 1 else 0)"
| "int_of (PInt i) = Some i"
| "int_of _ = None"

text \<open>\<^verbatim>\<open>isinstance(v, str)\<close>.\<close>

fun str_of :: "pyval \<Rightarrow> string option" where
  "str_of (PStr s) = Some s"
| "str_of _ = None"

text \<open>Whether a value can be hashed (be a dictionary key or be looked up in a set).\<close>

fun hashable :: "pyval \<Rightarrow> bool" where
  "hashable (PList xs) = False"
| "hashable (PDict kvs) = False"
| "hashable _ = True"

text \<open>\<^verbatim>\<open>int(f)\<close> of a float truncates towards zero.\<close>

definition py_int :: "real \<Rightarrow> int" where
  "py_int f = (if 0 \<le> f then \<lfloor>f\<rfloor> else \<lceil>f\<rceil>)"

text \<open>
  Floats are reals: rounding is not modelled. The doubles are bounded, though: an
  \<^verbatim>\<open>int\<close> that rounds beyond the largest double cannot be converted (\<^verbatim>\<open>OverflowError\<close>),
  and a float operation whose result does is given an infinity, on which \<^verbatim>\<open>int(...)\<close>
  raises \<^verbatim>\<open>OverflowError\<close>.
\<close>

definition float_range :: "int \<Rightarrow> bool" where
  "float_range i = (\<bar>i\<bar> < 2 ^ 1024 - 2 ^ 970)"

definition finite_float :: "real \<Rightarrow> bool" where
  "finite_float f = (\<bar>f\<bar> < 2 ^ 1024 - 2 ^ 970)"

section \<open>The random source\<close>

text \<open>
  The module-level generator of \<^verbatim>\<open>random\<close> is an explicit state: the standard
  normal deviates that \<^verbatim>\<open>random.gauss\<close> will use and the raw draws that
  \<^verbatim>\<open>randint\<close> and \<^verbatim>\<open>choice\<close> will use, in the order of consumption. Every finite
  run consumes finitely many, so lists describe every run.
\<close>

record rand =
  normals :: "real list"
  draws :: "nat list"

definition next_draw :: "rand \<Rightarrow> nat \<times> rand" where
  "next_draw r = (case draws r of [] \<Rightarrow> (0, r) | d # ds \<Rightarrow> (d, r\<lparr>draws := ds\<rparr>))"

definition gauss :: "real \<Rightarrow> real \<Rightarrow> rand \<Rightarrow> real \<times> rand" where
  "gauss mu sigma r =
     (case normals r of [] \<Rightarrow> (mu, r) | z # zs \<Rightarrow> (mu + z * sigma, r\<lparr>normals := zs\<rparr>))"

text \<open>
  \<^verbatim>\<open>int(random.gauss(mu, sigma))\<close>: the deviate is \<^verbatim>\<open>mu + z * sigma\<close>, and when the
  product or the sum leaves the doubles \<^verbatim>\<open>int\<close> is applied to an infinity.
\<close>

definition gauss_int :: "real \<Rightarrow> real \<Rightarrow> rand \<Rightarrow> (error + int) \<times> rand" where
  "gauss_int mu sigma r =
     (let (g, r1) = gauss mu sigma r
      in (if finite_float (g - mu) \<and> finite_float g then Inr (py_int g) else Inl OverflowError, r1))"

definition randint :: "int \<Rightarrow> int \<Rightarrow> rand \<Rightarrow> error + (int \<times> rand)" where
  "randint a b r =
     (if b < a then Inl ValueError
      else (let (d, r') = next_draw r in Inr (a + int (d mod nat (b - a + 1)), r')))"

definition choice :: "'a list \<Rightarrow> rand \<Rightarrow> error + ('a \<times> rand)" where
  "choice xs r =
     (if xs = [] then Inl IndexError
      else (let (d, r') = next_draw r in Inr (xs ! (d mod length xs), r')))"

section \<open>The behavior prior\<close>

text \<open>
  A key of \<^verbatim>\<open>action_counts\<close> and \<^verbatim>\<open>action_stats\<close>. Action names are strings; the
  fitting pass also accepts any other truthy hashable name of an episode file, and Python
  identifies the numbers \<^verbatim>\<open>1\<close>, \<^verbatim>\<open>1.0\<close> and \<^verbatim>\<open>True\<close> as keys.
\<close>

datatype pykey = KStr string | KNum real

definition CoordActions :: "string set" where
  "CoordActions = {''click_at'', ''hover_at'', ''scroll_at'', ''drag_and_drop''}"

text \<open>
  The dataclass \<^verbatim>\<open>ActionStats\<close>. A \<^verbatim>\<open>Counter\<close> is an association list in insertion
  order. The last three fields are the attributes \<^verbatim>\<open>_m2x\<close>, \<^verbatim>\<open>_m2y\<close> and \<^verbatim>\<open>_n\<close>
  that the fitting pass attaches to the object; \<open>None\<close> there means the attribute is not
  set.
\<close>

record ActionStats =
  count :: int
  mean_x :: "real option"
  mean_y :: "real option"
  std_x :: "real option"
  std_y :: "real option"
  direction_counts :: "(string \<times> int) list option"
  magnitudes :: "int list option"
  priv_m2x :: "real option"
  priv_m2y :: "real option"
  priv_n :: "int option"

definition ActionStats0 :: ActionStats where
  "ActionStats0 = \<lparr>count = 0, mean_x = None, mean_y = None, std_x = None, std_y = None,
     direction_counts = None, magnitudes = None,
     priv_m2x = None, priv_m2y = None, priv_n = None\<rparr>"

text \<open>
  The class \<^verbatim>\<open>BehaviorPrior\<close>. \<^verbatim>\<open>action_counts\<close> is a \<^verbatim>\<open>Counter\<close>.
  \<^verbatim>\<open>action_stats\<close> is the \<^verbatim>\<open>defaultdict(ActionStats)\<close> that \<^verbatim>\<open>__init__\<close> makes
  or the plain dictionary that \<^verbatim>\<open>load\<close> puts in its place; \<open>stats_default\<close> tells
  which, since \<^verbatim>\<open>self.action_stats[name]\<close> makes a missing entry in the first and
  raises \<^verbatim>\<open>KeyError\<close> in the second.
\<close>

record BehaviorPrior =
  screen_w :: int
  screen_h :: int
  action_counts :: "pykey \<rightharpoonup> int"
  action_stats :: "pykey \<rightharpoonup> ActionStats"
  stats_default :: bool

definition BehaviorPrior_init :: "int \<times> int \<Rightarrow> BehaviorPrior" where
  "BehaviorPrior_init screen_size =
     \<lparr>screen_w = fst screen_size, screen_h = snd screen_size,
      action_counts = Map.empty, action_stats = Map.empty, stats_default = True\<rparr>"

subsection \<open>Sampling\<close>

text \<open>\<^verbatim>\<open>st.std_x or (self.screen_w * 0.2)\<close>: a missing or zero deviation falls back.\<close>

definition sigma_or :: "real option \<Rightarrow> int \<Rightarrow> real" where
  "sigma_or s w = (case s of None \<Rightarrow> of_int w * 0.2
                   | Some v \<Rightarrow> if v \<noteq> 0 then v else of_int w * 0.2)"

definition clamp_coord :: "int \<Rightarrow> int \<Rightarrow> int" where
  "clamp_coord w x = max 0 (min (w - 1) x)"

text \<open>
  The fallback \<^verbatim>\<open>self.screen_w * 0.2\<close> is evaluated only for a missing or zero
  deviation, and raises \<^verbatim>\<open>OverflowError\<close> for a screen size beyond the doubles.
\<close>

definition sigma_raises :: "real option \<Rightarrow> int \<Rightarrow> bool" where
  "sigma_raises s w = ((s = None \<or> s = Some 0) \<and> \<not> float_range w)"

text \<open>
  \<^verbatim>\<open>sample_coordinates\<close>. Both deviations are computed first, then \<open>x\<close> is drawn and
  converted, then \<open>y\<close>. With \<^verbatim>\<open>mean_x\<close> set and \<^verbatim>\<open>mean_y\<close> missing,
  \<^verbatim>\<open>random.gauss(None, ...)\<close> raises \<^verbatim>\<open>TypeError\<close>, after the draw for \<open>x\<close>.
  The statistics are finite reals here. One that is itself an infinity or not a number
  (a checkpoint file can hold one) has no counterpart: on it the deviate is an infinity
  or not a number, \<^verbatim>\<open>int(...)\<close> raises \<^verbatim>\<open>OverflowError\<close> or \<^verbatim>\<open>ValueError\<close>, and
  the call returns no pair.
\<close>

definition sample_coordinates ::
  "BehaviorPrior \<Rightarrow> string \<Rightarrow> rand \<Rightarrow> (error + (int \<times> int)) \<times> rand" where
  "sample_coordinates self name r =
     (case action_stats self (KStr name) of
        None \<Rightarrow> (Inr (clamp_coord (screen_w self) (screen_w self div 2),
                       clamp_coord (screen_h self) (screen_h self div 2)), r)
      | Some st \<Rightarrow>
          (case mean_x st of
             None \<Rightarrow> (Inr (clamp_coord (screen_w self) (screen_w self div 2),
                            clamp_coord (screen_h self) (screen_h self div 2)), r)
           | Some mx \<Rightarrow>
               if sigma_raises (std_x st) (screen_w self) \<or> sigma_raises (std_y st) (screen_h self)
               then (Inl OverflowError, r)
               else
                 (let sigma_x = sigma_or (std_x st) (screen_w self);
                      sigma_y = sigma_or (std_y st) (screen_h self);
                      (gx, r1) = gauss_int mx sigma_x r
                  in case gx of
                       Inl e \<Rightarrow> (Inl e, r1)
                     | Inr x \<Rightarrow>
                         (case mean_y st of
                            None \<Rightarrow> (Inl TypeError, r1)
                          | Some my \<Rightarrow>
                              (let (gy, r2) = gauss_int my sigma_y r1
                               in case gy of
                                    Inl e \<Rightarrow> (Inl e, r2)
                                  | Inr y \<Rightarrow>
                                      (Inr (clamp_coord (screen_w self) x,
                                            clamp_coord (screen_h self) y), r2))))))"

text \<open>
  The cumulative-count walk of \<^verbatim>\<open>sample_scroll\<close>: the first direction whose running
  sum reaches the draw, or the initial choice when none does.
\<close>

fun walk_cum :: "int \<Rightarrow> int \<Rightarrow> string \<Rightarrow> (string \<times> int) list \<Rightarrow> string" where
  "walk_cum rr cum chosen [] = chosen"
| "walk_cum rr cum chosen ((d, c) # rest) =
     (if rr \<le> cum + c then d else walk_cum rr (cum + c) chosen rest)"

definition sample_direction ::
  "ActionStats option \<Rightarrow> bool \<Rightarrow> rand \<Rightarrow> error + (string \<times> rand)" where
  "sample_direction st at_pt r =
     (case (case st of None \<Rightarrow> None | Some s \<Rightarrow> direction_counts s) of
        Some (dc # dcs) \<Rightarrow>
          (case randint 1 (sum_list (map snd (dc # dcs))) r of
             Inl e \<Rightarrow> Inl e
           | Inr (rr, r') \<Rightarrow> Inr (walk_cum rr 0 (fst dc) (dc # dcs), r'))
      | _ \<Rightarrow>
          (if \<not> at_pt then choice [''up'', ''down''] r
           else choice [''up'', ''down'', ''left'', ''right''] r))"

definition sample_magnitude ::
  "ActionStats option \<Rightarrow> bool \<Rightarrow> rand \<Rightarrow> error + (int \<times> rand)" where
  "sample_magnitude st at_pt r =
     (if at_pt then
        (case (case st of None \<Rightarrow> None | Some s \<Rightarrow> magnitudes s) of
           Some (m # ms) \<Rightarrow> choice (m # ms) r
         | _ \<Rightarrow> choice [200, 400, 800] r)
      else Inr (0, r))"

definition sample_scroll ::
  "BehaviorPrior \<Rightarrow> bool \<Rightarrow> rand \<Rightarrow> (error + (string \<times> int)) \<times> rand" where
  "sample_scroll self at_pt r =
     (let name = (if at_pt then ''scroll_at'' else ''scroll_document'');
          st = action_stats self (KStr name)
      in case sample_direction st at_pt r of
           Inl e \<Rightarrow> (Inl e, r)
         | Inr (chosen, r1) \<Rightarrow>
             (case sample_magnitude st at_pt r1 of
                Inl e \<Rightarrow> (Inl e, r1)
              | Inr (mag, r2) \<Rightarrow> (Inr (chosen, mag), r2)))"

subsection \<open>Validation of proposed arguments\<close>

text \<open>
  Argument dictionaries are mutable objects passed by reference, so they live in a store:
  a list of dictionaries, an address being an index. \<^verbatim>\<open>dict(args)\<close> allocates a new
  cell holding a copy, and \<^verbatim>\<open>out[k] = v\<close> rewrites one cell.
\<close>

type_synonym store = "pydict list"

definition new_dict :: "pydict \<Rightarrow> store \<Rightarrow> nat \<times> store" where
  "new_dict d h = (length h, h @ [d])"

definition set_item :: "nat \<Rightarrow> string \<Rightarrow> pyval \<Rightarrow> store \<Rightarrow> store" where
  "set_item a k v h = h[a := AList.update k v (h ! a)]"

text \<open>
  The coordinate part: \<open>x\<close> and \<open>y\<close> are replaced by a sampled pair when one of them
  is not a number or the point is off the screen.
\<close>

definition need_coords :: "BehaviorPrior \<Rightarrow> pydict \<Rightarrow> bool" where
  "need_coords self d =
     (case (num_of (dget d ''x''), num_of (dget d ''y'')) of
        (Some x, Some y) \<Rightarrow>
          x < 0 \<or> y < 0 \<or> of_int (screen_w self) \<le> x \<or> of_int (screen_h self) \<le> y
      | _ \<Rightarrow> True)"

definition adjust_coords ::
  "BehaviorPrior \<Rightarrow> string \<Rightarrow> nat \<Rightarrow> store \<Rightarrow> rand \<Rightarrow> error option \<times> store \<times> rand" where
  "adjust_coords self name out h r =
     (if name \<in> CoordActions \<and> need_coords self (h ! out) then
        (case sample_coordinates self name r of
           (Inl e, r') \<Rightarrow> (Some e, h, r')
         | (Inr (sx, sy), r') \<Rightarrow>
             (None, set_item out ''y'' (PInt sy) (set_item out ''x'' (PInt sx) h), r'))
      else (None, h, r))"

text \<open>
  The scroll part. The defaults are sampled before the tests; looking an unhashable
  \<open>direction\<close> up in the set of the four directions raises \<^verbatim>\<open>TypeError\<close>.
\<close>

definition valid_direction :: "pyval \<Rightarrow> bool" where
  "valid_direction v =
     (v \<in> {PStr ''up'', PStr ''down'', PStr ''left'', PStr ''right''})"

definition adjust_scroll ::
  "BehaviorPrior \<Rightarrow> string \<Rightarrow> nat \<Rightarrow> store \<Rightarrow> rand \<Rightarrow> error option \<times> store \<times> rand" where
  "adjust_scroll self name out h r =
     (if name = ''scroll_at'' \<or> name = ''scroll_document'' then
        (let direction = dget (h ! out) ''direction'';
             mag = dget (h ! out) ''magnitude''
         in case sample_scroll self (name = ''scroll_at'') r of
              (Inl e, r') \<Rightarrow> (Some e, h, r')
            | (Inr (dflt_dir, dflt_mag), r') \<Rightarrow>
                (if \<not> hashable direction then (Some TypeError, h, r')
                 else
                   (let h1 = (if \<not> valid_direction direction
                              then set_item out ''direction'' (PStr dflt_dir) h else h);
                        h2 = (if name = ''scroll_at'' \<and> int_of mag = None
                              then set_item out ''magnitude'' (PInt dflt_mag) h1 else h1)
                    in (None, h2, r'))))
      else (None, h, r))"

text \<open>
  \<^verbatim>\<open>validate_or_adjust(name, args)\<close>: \<open>args\<close> is the address of the caller's dictionary
  (or \<^verbatim>\<open>None\<close>); the result is the address of the returned dictionary, or the exception
  raised, with the store and the random source as they are left.
\<close>

definition validate_or_adjust ::
  "BehaviorPrior \<Rightarrow> string \<Rightarrow> nat option \<Rightarrow> store \<Rightarrow> rand \<Rightarrow> (error + nat) \<times> store \<times> rand" where
  "validate_or_adjust self name args h r =
     (let (out, h0) = new_dict (case args of None \<Rightarrow> [] | Some a \<Rightarrow> h ! a) h
      in case adjust_coords self name out h0 r of
           (Some e, h1, r1) \<Rightarrow> (Inl e, h1, r1)
         | (None, h1, r1) \<Rightarrow>
             (case adjust_scroll self name out h1 r1 of
                (Some e, h2, r2) \<Rightarrow> (Inl e, h2, r2)
              | (None, h2, r2) \<Rightarrow> (Inr out, h2, r2)))"

subsection \<open>Fitting\<close>

text \<open>
  What the fitting pass finds on disk. The \<^verbatim>\<open>episodes\<close> path is absent, a regular
  file or a directory of entries, in the order \<^verbatim>\<open>iterdir\<close> yields them. An entry is
  not a directory, or an episode directory whose \<^verbatim>\<open>episode.json\<close> is missing, cannot
  be opened, is not JSON text, or parses to a value.
\<close>

datatype episode_file = NoFile | Unreadable | BadJson | Json pyval

datatype dir_entry = NotADir | EpisodeDir episode_file

datatype episodes_path = Absent | RegularFile | Directory "dir_entry list"

text \<open>
  A name as a dictionary key: \<open>None\<close> when it cannot be hashed. Numbers that compare
  equal are one key.
\<close>

fun key_of :: "pyval \<Rightarrow> pykey option" where
  "key_of (PStr s) = Some (KStr s)"
| "key_of (PBool b) = Some (KNum (if b then 1 else 0))"
| "key_of (PInt i) = Some (KNum (of_int i))"
| "key_of (PFloat r) = Some (KNum r)"
| "key_of PNone = None"
| "key_of (PList xs) = None"
| "key_of (PDict kvs) = None"

text \<open>
  What a \<^verbatim>\<open>for\<close> loop over a value visits: the items of a list, the keys of a
  dictionary, the characters of a string; other values are not iterable.
\<close>

fun py_iter :: "pyval \<Rightarrow> pyval list option" where
  "py_iter (PList xs) = Some xs"
| "py_iter (PDict kvs) = Some (map (\<lambda>kv. PStr (fst kv)) kvs)"
| "py_iter (PStr s) = Some (map (\<lambda>c. PStr [c]) s)"
| "py_iter _ = None"

text \<open>\<^verbatim>\<open>d.get(k, {})\<close> and \<^verbatim>\<open>d.get(k, [])\<close>: the default only for an absent key.\<close>

definition dget_or :: "pydict \<Rightarrow> string \<Rightarrow> pyval \<Rightarrow> pyval" where
  "dget_or d k dflt = (case map_of d k of None \<Rightarrow> dflt | Some v \<Rightarrow> v)"

text \<open>
  A number as a float: \<^verbatim>\<open>float(x)\<close>, and the conversion of an \<^verbatim>\<open>int\<close> operand in
  arithmetic with a float. An \<^verbatim>\<open>int\<close> that rounds beyond the largest double raises
  \<^verbatim>\<open>OverflowError\<close> (\<open>None\<close> here); the rounding of the others is not modelled.
\<close>

fun as_float :: "pyval \<Rightarrow> real option" where
  "as_float (PBool b) = Some (if b then 1 else 0)"
| "as_float (PInt i) = (if float_range i then Some (of_int i) else None)"
| "as_float (PFloat r) = Some r"
| "as_float _ = None"

text \<open>
  The incremental mean and deviation update for one accepted coordinate pair of numbers.
  The first pair initialises the statistics with \<^verbatim>\<open>float(x)\<close>, \<^verbatim>\<open>float(y)\<close>; a
  later one reads \<^verbatim>\<open>_n\<close>, converts \<open>x\<close>, reads \<^verbatim>\<open>_m2x\<close> and \<^verbatim>\<open>mean_y\<close>, converts
  \<open>y\<close> and reads \<^verbatim>\<open>_m2y\<close>, in this order, and raises where one is missing or too
  large.
\<close>

definition welford :: "ActionStats \<Rightarrow> pyval \<Rightarrow> pyval \<Rightarrow> error + ActionStats" where
  "welford st vx vy =
     (case mean_x st of
        None \<Rightarrow>
          (case as_float vx of
             None \<Rightarrow> Inl OverflowError
           | Some x \<Rightarrow>
               (case as_float vy of
                  None \<Rightarrow> Inl OverflowError
                | Some y \<Rightarrow>
                    Inr (st\<lparr>mean_x := Some x, mean_y := Some y, std_x := Some 0, std_y := Some 0,
                            priv_m2x := Some 0, priv_m2y := Some 0, priv_n := Some 1\<rparr>)))
      | Some mx \<Rightarrow>
          (case priv_n st of
             None \<Rightarrow> Inl AttributeError
           | Some n0 \<Rightarrow>
               (case as_float vx of
                  None \<Rightarrow> Inl OverflowError
                | Some x \<Rightarrow>
                    (let n = n0 + 1;
                         dx = x - mx
                     in if n = 0 then Inl ZeroDivisionError
                        else
                          (let mx' = mx + dx / of_int n
                           in case priv_m2x st of
                                None \<Rightarrow> Inl AttributeError
                              | Some m2x \<Rightarrow>
                                  (let m2x' = m2x + dx * (x - mx')
                                   in case mean_y st of
                                        None \<Rightarrow> Inl TypeError
                                      | Some my \<Rightarrow>
                                          (case as_float vy of
                                             None \<Rightarrow> Inl OverflowError
                                           | Some y \<Rightarrow>
                                               (let dy = y - my;
                                                    my' = my + dy / of_int n
                                                in case priv_m2y st of
                                                     None \<Rightarrow> Inl AttributeError
                                                   | Some m2y \<Rightarrow>
                                                       (let m2y' = m2y + dy * (y - my')
                                                        in Inr (st\<lparr>mean_x := Some mx', mean_y := Some my',
                                                             std_x := Some (sqrt (max (m2x' / of_int (max (n - 1) 1)) 1)),
                                                             std_y := Some (sqrt (max (m2y' / of_int (max (n - 1) 1)) 1)),
                                                             priv_m2x := Some m2x', priv_m2y := Some m2y',
                                                             priv_n := Some n\<rparr>))))))))))"

text \<open>
  The coordinates of a step: \<^verbatim>\<open>args.get("x") or args.get("destination_x")\<close>, and the
  same for \<open>y\<close>; the pair is used when both are numbers.
\<close>

definition coord_x :: "pydict \<Rightarrow> pyval" where
  "coord_x args = py_or (dget args ''x'') (dget args ''destination_x'')"

definition coord_y :: "pydict \<Rightarrow> pyval" where
  "coord_y args = py_or (dget args ''y'') (dget args ''destination_y'')"

definition update_coords :: "pydict \<Rightarrow> ActionStats \<Rightarrow> error + ActionStats" where
  "update_coords args st =
     (case (num_of (coord_x args), num_of (coord_y args)) of
        (Some x, Some y) \<Rightarrow> welford st (coord_x args) (coord_y args)
      | _ \<Rightarrow> Inr st)"

text \<open>\<^verbatim>\<open>counter[k] += 1\<close> on a \<^verbatim>\<open>Counter\<close>: a missing key counts from zero.\<close>

definition counter_incr :: "string \<Rightarrow> (string \<times> int) list \<Rightarrow> (string \<times> int) list" where
  "counter_incr k c = AList.update k ((case map_of c k of None \<Rightarrow> 0 | Some v \<Rightarrow> v) + 1) c"

definition update_scroll :: "bool \<Rightarrow> pydict \<Rightarrow> ActionStats \<Rightarrow> ActionStats" where
  "update_scroll is_at args st =
     (let dc = (case direction_counts st of None \<Rightarrow> [] | Some c \<Rightarrow> c);
          dc' = (case str_of (dget args ''direction'') of
                   None \<Rightarrow> dc | Some d \<Rightarrow> counter_incr d dc);
          st1 = st\<lparr>direction_counts := Some dc'\<rparr>
      in if is_at then
           (let ms = (case magnitudes st1 of None \<Rightarrow> [] | Some m \<Rightarrow> m);
                ms' = (case int_of (dget args ''magnitude'') of
                         None \<Rightarrow> ms | Some m \<Rightarrow> ms @ [m])
            in st1\<lparr>magnitudes := Some ms'\<rparr>)
         else st1)"

definition is_coord_action :: "pyval \<Rightarrow> bool" where
  "is_coord_action name = (case name of PStr s \<Rightarrow> s \<in> CoordActions | _ \<Rightarrow> False)"

definition is_scroll_action :: "pyval \<Rightarrow> bool" where
  "is_scroll_action name = (name = PStr ''scroll_at'' \<or> name = PStr ''scroll_document'')"

text \<open>
  The two blocks that read \<open>args\<close>; \<^verbatim>\<open>args.get\<close> raises \<^verbatim>\<open>AttributeError\<close> when
  \<open>args\<close> is not a dictionary, and only these blocks touch it.
\<close>

definition update_stats :: "pyval \<Rightarrow> pyval \<Rightarrow> ActionStats \<Rightarrow> error + ActionStats" where
  "update_stats name args st =
     (case (if is_coord_action name
            then (case args of PDict ad \<Rightarrow> update_coords ad st | _ \<Rightarrow> Inl AttributeError)
            else Inr st) of
        Inl e \<Rightarrow> Inl e
      | Inr st1 \<Rightarrow>
          (if is_scroll_action name
           then (case args of
                   PDict ad \<Rightarrow> Inr (update_scroll (name = PStr ''scroll_at'') ad st1)
                 | _ \<Rightarrow> Inl AttributeError)
           else Inr st1))"

text \<open>
  \<^verbatim>\<open>self.action_stats[name]\<close>: the entry of the kind, a new \<^verbatim>\<open>ActionStats()\<close> where
  a \<^verbatim>\<open>defaultdict\<close> has none, and \<^verbatim>\<open>KeyError\<close> (\<open>None\<close> here) where a plain
  dictionary has none.
\<close>

definition stats_item :: "BehaviorPrior \<Rightarrow> pykey \<Rightarrow> ActionStats option" where
  "stats_item self k =
     (case action_stats self k of
        Some st \<Rightarrow> Some st
      | None \<Rightarrow> if stats_default self then Some ActionStats0 else None)"

text \<open>The body of the loop over the steps of one episode.\<close>

definition fit_step :: "BehaviorPrior \<Rightarrow> pyval \<Rightarrow> error + BehaviorPrior" where
  "fit_step self step =
     (case step of
        PDict sd \<Rightarrow>
          (case dget_or sd ''action'' (PDict []) of
             PDict ad \<Rightarrow>
               (let name = dget ad ''name'';
                    args = dget_or ad ''args'' (PDict [])
                in if \<not> truthy name then Inr self
                   else
                     (case key_of name of
                        None \<Rightarrow> Inl TypeError
                      | Some k \<Rightarrow>
                          (let cnt = (case action_counts self k of None \<Rightarrow> 0 | Some c \<Rightarrow> c) + 1
                           in case stats_item self k of
                                None \<Rightarrow> Inl KeyError
                              | Some st \<Rightarrow>
                                  (case update_stats name args (st\<lparr>count := count st + 1\<rparr>) of
                                     Inl e \<Rightarrow> Inl e
                                   | Inr st2 \<Rightarrow>
                                       Inr (self\<lparr>action_counts := (action_counts self)(k \<mapsto> cnt),
                                                 action_stats := (action_stats self)(k \<mapsto> st2)\<rparr>)))))
           | _ \<Rightarrow> Inl AttributeError)
      | _ \<Rightarrow> Inl AttributeError)"

fun fit_steps :: "BehaviorPrior \<Rightarrow> pyval list \<Rightarrow> error + BehaviorPrior" where
  "fit_steps self [] = Inr self"
| "fit_steps self (step # steps) =
     (case fit_step self step of Inl e \<Rightarrow> Inl e | Inr self' \<Rightarrow> fit_steps self' steps)"

definition fit_episode :: "BehaviorPrior \<Rightarrow> pyval \<Rightarrow> error + BehaviorPrior" where
  "fit_episode self ep =
     (case ep of
        PDict ed \<Rightarrow>
          (case py_iter (dget_or ed ''steps'' (PList [])) of
             None \<Rightarrow> Inl TypeError
           | Some steps \<Rightarrow> fit_steps self steps)
      | _ \<Rightarrow> Inl AttributeError)"

fun fit_entry :: "BehaviorPrior \<Rightarrow> dir_entry \<Rightarrow> error + BehaviorPrior" where
  "fit_entry self NotADir = Inr self"
| "fit_entry self (EpisodeDir NoFile) = Inr self"
| "fit_entry self (EpisodeDir Unreadable) = Inl OSError"
| "fit_entry self (EpisodeDir BadJson) = Inl JSONDecodeError"
| "fit_entry self (EpisodeDir (Json ep)) = fit_episode self ep"

fun fit_entries :: "BehaviorPrior \<Rightarrow> dir_entry list \<Rightarrow> error + BehaviorPrior" where
  "fit_entries self [] = Inr self"
| "fit_entries self (e # es) =
     (case fit_entry self e of Inl err \<Rightarrow> Inl err | Inr self' \<Rightarrow> fit_entries self' es)"

text \<open>The closing loop: \<^verbatim>\<open>Finalize std if only one sample\<close>.\<close>

definition finalize_stats :: "int \<Rightarrow> int \<Rightarrow> ActionStats \<Rightarrow> ActionStats" where
  "finalize_stats w h st =
     (if count st \<le> 1 then
        (let st1 = (if std_x st = None then st\<lparr>std_x := Some (max (of_int w * 0.2) 1)\<rparr> else st)
         in if std_y st1 = None then st1\<lparr>std_y := Some (max (of_int h * 0.2) 1)\<rparr> else st1)
      else st)"

definition finalize :: "BehaviorPrior \<Rightarrow> BehaviorPrior" where
  "finalize self =
     self\<lparr>action_stats :=
       (\<lambda>k. map_option (finalize_stats (screen_w self) (screen_h self)) (action_stats self k))\<rparr>"

text \<open>
  \<^verbatim>\<open>fit_from_episodes\<close>: the exception raised, or the prior after the pass.
\<close>

definition fit_from_episodes :: "BehaviorPrior \<Rightarrow> episodes_path \<Rightarrow> error + BehaviorPrior" where
  "fit_from_episodes self p =
     (case p of
        Absent \<Rightarrow> Inl FileNotFoundError
      | RegularFile \<Rightarrow> Inl NotADirectoryError
      | Directory entries \<Rightarrow>
          (case fit_entries self entries of
             Inl e \<Rightarrow> Inl e
           | Inr self' \<Rightarrow> Inr (finalize self')))"


subsection \<open>Persistence\<close>

text \<open>
  The snapshot is the JSON document that \<^verbatim>\<open>json.dump\<close> writes and \<^verbatim>\<open>json.load\<close>
  reads back, at the schema of the persisted prior. A field read with \<^verbatim>\<open>d.get\<close> is
  optional: \<open>None\<close> is a missing key for \<open>count\<close>, \<open>direction_counts\<close> and
  \<open>magnitudes\<close> and a missing key or \<^verbatim>\<open>null\<close> for the means and deviations. The
  text of the file is not modelled: a file holds its document, which is what
  \<^verbatim>\<open>json.load\<close> makes of what \<^verbatim>\<open>json.dump\<close> wrote when all keys are strings
  (\<^verbatim>\<open>json.dump\<close> writes keys that are numbers as text).
\<close>

record stats_doc =
  d_count :: "int option"
  d_mean_x :: "real option"
  d_mean_y :: "real option"
  d_std_x :: "real option"
  d_std_y :: "real option"
  d_direction_counts :: "(string \<times> int) list option"
  d_magnitudes :: "int list option"

record prior_doc =
  d_screen_size :: "int list option"
  d_action_counts :: "(pykey \<rightharpoonup> int) option"
  d_action_stats :: "(pykey \<rightharpoonup> stats_doc) option"

type_synonym files = "string \<rightharpoonup> prior_doc"

text \<open>\<^verbatim>\<open>ActionStats.to_dict\<close>: a missing counter or list is written as an empty one.\<close>

definition to_dict :: "ActionStats \<Rightarrow> stats_doc" where
  "to_dict st =
     \<lparr>d_count = Some (count st),
      d_mean_x = mean_x st, d_mean_y = mean_y st,
      d_std_x = std_x st, d_std_y = std_y st,
      d_direction_counts = Some (case direction_counts st of None \<Rightarrow> [] | Some c \<Rightarrow> c),
      d_magnitudes = Some (case magnitudes st of None \<Rightarrow> [] | Some m \<Rightarrow> m)\<rparr>"

text \<open>
  \<^verbatim>\<open>ActionStats.from_dict\<close>: a new object, whose \<^verbatim>\<open>_m2x\<close>, \<^verbatim>\<open>_m2y\<close> and \<^verbatim>\<open>_n\<close> are
  not set, filled from the document.
\<close>

definition from_dict :: "stats_doc \<Rightarrow> ActionStats" where
  "from_dict d =
     \<lparr>count = (case d_count d of None \<Rightarrow> 0 | Some c \<Rightarrow> c),
      mean_x = d_mean_x d, mean_y = d_mean_y d,
      std_x = d_std_x d, std_y = d_std_y d,
      direction_counts = Some (case d_direction_counts d of None \<Rightarrow> [] | Some c \<Rightarrow> c),
      magnitudes = Some (case d_magnitudes d of None \<Rightarrow> [] | Some m \<Rightarrow> m),
      priv_m2x = None, priv_m2y = None, priv_n = None\<rparr>"

definition snapshot :: "BehaviorPrior \<Rightarrow> prior_doc" where
  "snapshot self =
     \<lparr>d_screen_size = Some [screen_w self, screen_h self],
      d_action_counts = Some (action_counts self),
      d_action_stats = Some (\<lambda>k. map_option to_dict (action_stats self k))\<rparr>"

text \<open>\<^verbatim>\<open>save(path)\<close> on writable storage: the file at \<open>path\<close> now holds the snapshot.\<close>

definition save :: "BehaviorPrior \<Rightarrow> string \<Rightarrow> files \<Rightarrow> files" where
  "save self path fs = fs(path \<mapsto> snapshot self)"

text \<open>
  \<^verbatim>\<open>load(path)\<close>: \<^verbatim>\<open>open\<close> raises for a missing file, and \<^verbatim>\<open>size[0]\<close>,
  \<^verbatim>\<open>size[1]\<close> raise for a screen size of fewer than two entries. The statistics
  become a plain dictionary.
\<close>

definition load :: "string \<Rightarrow> files \<Rightarrow> error + BehaviorPrior" where
  "load path fs =
     (case fs path of
        None \<Rightarrow> Inl FileNotFoundError
      | Some d \<Rightarrow>
          (let size = (case d_screen_size d of None \<Rightarrow> [1440, 900] | Some l \<Rightarrow> l)
           in if length size < 2 then Inl IndexError
              else Inr \<lparr>screen_w = size ! 0, screen_h = size ! 1,
                        action_counts = (case d_action_counts d of None \<Rightarrow> Map.empty | Some m \<Rightarrow> m),
                        action_stats =
                          (case d_action_stats d of
                             None \<Rightarrow> Map.empty
                           | Some m \<Rightarrow> (\<lambda>k. map_option from_dict (m k))),
                        stats_default = False\<rparr>))"


section \<open>Reference statistics and views used in the statements\<close>

text \<open>
  The direct, whole-sample statistics in the spec's words: the mean of the samples, the
  sum of their squared deviations from it, and the deviation as the square root of that
  sum divided by \<open>n - 1\<close>, floored at 1.
\<close>

definition direct_mean :: "real list \<Rightarrow> real" where
  "direct_mean xs = sum_list xs / of_nat (length xs)"

definition sq_dev :: "real list \<Rightarrow> real" where
  "sq_dev xs = (\<Sum>x\<leftarrow>xs. (x - direct_mean xs)\<^sup>2)"

definition direct_std :: "real list \<Rightarrow> real" where
  "direct_std xs = sqrt (max (sq_dev xs / of_nat (length xs - 1)) 1)"

text \<open>The coordinate statistics of a kind: the fields the incremental update writes.\<close>

definition coord_part ::
  "ActionStats \<Rightarrow> real option \<times> real option \<times> real option \<times> real option \<times>
     real option \<times> real option \<times> int option" where
  "coord_part st =
     (mean_x st, mean_y st, std_x st, std_y st, priv_m2x st, priv_m2y st, priv_n st)"

text \<open>
  Reading a step of an episode file: the action name the pass reads (none where the step
  or its action is not a dictionary), and for a step of kind \<open>s\<close> the numbers under
  \<open>x\<close> and \<open>y\<close> of its arguments as floats, when both are numbers that convert.
\<close>

definition step_name :: "pyval \<Rightarrow> pyval option" where
  "step_name step =
     (case step of
        PDict sd \<Rightarrow>
          (case dget_or sd ''action'' (PDict []) of
             PDict ad \<Rightarrow> Some (dget ad ''name'')
           | _ \<Rightarrow> None)
      | _ \<Rightarrow> None)"

definition step_xy :: "string \<Rightarrow> pyval \<Rightarrow> (real \<times> real) option" where
  "step_xy s step =
     (case step of
        PDict sd \<Rightarrow>
          (case dget_or sd ''action'' (PDict []) of
             PDict ad \<Rightarrow>
               (if dget ad ''name'' = PStr s then
                  (case dget_or ad ''args'' (PDict []) of
                     PDict args \<Rightarrow>
                       (case (as_float (dget args ''x''), as_float (dget args ''y'')) of
                          (Some x, Some y) \<Rightarrow> Some (x, y)
                        | _ \<Rightarrow> None)
                   | _ \<Rightarrow> None)
                else None)
           | _ \<Rightarrow> None)
      | _ \<Rightarrow> None)"

text \<open>
  An episode index file as the collector writes it (\<^verbatim>\<open>EpisodeRecord.model_dump()\<close>),
  and a \<^verbatim>\<open>click_at\<close> step in it.
\<close>

definition episode_doc :: "string \<Rightarrow> pyval list \<Rightarrow> pyval" where
  "episode_doc eid steps = PDict [(''episode_id'', PStr eid), (''steps'', PList steps)]"

definition click_step :: "int \<Rightarrow> pyval \<Rightarrow> pyval \<Rightarrow> pyval" where
  "click_step t x y =
     PDict [(''step_index'', PInt t),
            (''action'', PDict [(''name'', PStr ''click_at''), (''args'', PDict [(''x'', x), (''y'', y)])]),
            (''meta'', PDict [])]"

definition drag_step :: "int \<Rightarrow> pyval \<Rightarrow> pyval \<Rightarrow> pyval \<Rightarrow> pyval \<Rightarrow> pyval" where
  "drag_step t x y dx dy =
     PDict [(''step_index'', PInt t),
            (''action'', PDict [(''name'', PStr ''drag_and_drop''),
               (''args'', PDict [(''x'', x), (''y'', y),
                                 (''destination_x'', dx), (''destination_y'', dy)])]),
            (''meta'', PDict [])]"

text \<open>
  A step feeds the pair \<open>(vx, vy)\<close> into the statistics \<open>st\<close> of kind \<open>s\<close>: the pass
  counts the step and leaves for the kind the means, deviations and running sums that
  the incremental update makes of \<open>st\<close> on that pair, and it raises what the update
  raises.
\<close>

definition feeds ::
  "BehaviorPrior \<Rightarrow> pyval \<Rightarrow> string \<Rightarrow> ActionStats \<Rightarrow> pyval \<Rightarrow> pyval \<Rightarrow> bool" where
  "feeds self step s st vx vy =
     (case welford (st\<lparr>count := count st + 1\<rparr>) vx vy of
        Inl e \<Rightarrow> fit_step self step = Inl e
      | Inr st2 \<Rightarrow>
          (\<exists>self' st'. fit_step self step = Inr self' \<and>
             action_stats self' (KStr s) = Some st' \<and>
             count st' = count st + 1 \<and> coord_part st' = coord_part st2))"

text \<open>
  The invariant of the incremental update: after the samples \<open>xs\<close>, \<open>ys\<close> the
  statistics hold their direct mean and sum of squared deviations, and the deviation is 0
  after one sample and the direct one after more.
\<close>

definition welford_inv :: "ActionStats \<Rightarrow> real list \<Rightarrow> real list \<Rightarrow> bool" where
  "welford_inv st xs ys \<longleftrightarrow>
     xs \<noteq> [] \<and> length ys = length xs \<and>
     mean_x st = Some (direct_mean xs) \<and> mean_y st = Some (direct_mean ys) \<and>
     priv_m2x st = Some (sq_dev xs) \<and> priv_m2y st = Some (sq_dev ys) \<and>
     priv_n st = Some (int (length xs)) \<and>
     std_x st = Some (if length xs = 1 then 0 else direct_std xs) \<and>
     std_y st = Some (if length ys = 1 then 0 else direct_std ys)"

definition kind_inv :: "BehaviorPrior \<Rightarrow> string \<Rightarrow> (real \<times> real) list \<Rightarrow> bool" where
  "kind_inv self s acc \<longleftrightarrow>
     (if acc = [] then action_stats self (KStr s) = None
      else (\<exists>st. action_stats self (KStr s) = Some st \<and> count st = int (length acc) \<and>
                 welford_inv st (map fst acc) (map snd acc)))"


section \<open>The episode collector\<close>

subsection \<open>Records\<close>

text \<open>
  The state an environment operation returns (\<^verbatim>\<open>url\<close>, \<^verbatim>\<open>screenshot\<close>), the
  pydantic records of an episode, and the configuration of a run.
\<close>

record EnvState =
  state_url :: string
  state_screenshot :: string

record Observation =
  url :: string
  timestamp_ms :: int
  image_path :: string
  dom_path :: "string option"

record ActionRecord =
  name :: string
  args :: pydict

record StepRecord =
  step_index :: int
  obs :: Observation
  action :: ActionRecord
  next_obs :: Observation
  meta :: pydict

record EpisodeRecord =
  episode_id :: string
  steps :: "StepRecord list"

record CollectConfig =
  output_dir :: string
  episodes :: int
  max_steps_per_episode :: int
  initial_url :: string
  save_dom :: bool
  whitelist_domains :: "string list option"
  seed :: int

subsection \<open>The environment and the outside world\<close>

text \<open>
  The operations of \<^verbatim>\<open>Computer\<close> that the collector calls, with their arguments as the
  collector passes them.
\<close>

datatype env_call =
    OpenWebBrowser
  | ClickAt pyval pyval
  | HoverAt pyval pyval
  | TypeTextAt pyval pyval pyval pyval pyval
  | ScrollDocument pyval
  | ScrollAt pyval pyval pyval pyval
  | Wait5Seconds
  | GoBack
  | GoForward
  | Search
  | Navigate pyval
  | KeyCombination pyval
  | DragAndDrop pyval pyval pyval pyval
  | CurrentState

text \<open>
  An environment over states \<open>'e\<close>: an operation returns a state or raises (\<open>None\<close>)
  and leaves the environment changed; the screen size is a query that may raise.
\<close>

record 'e Computer =
  call :: "env_call \<Rightarrow> 'e \<Rightarrow> EnvState option \<times> 'e"
  screen_size :: "'e \<Rightarrow> (int \<times> int) option"

text \<open>
  What the collector takes from outside besides the environment: the random source, the
  readings of the clock, the identifiers \<^verbatim>\<open>uuid4\<close> hands out, and the number of
  half-second pauses slept so far.
\<close>

record world =
  rng :: rand
  clock :: "int list"
  uuids :: "string list"
  sleeps :: nat

definition ts_ms :: "world \<Rightarrow> int \<times> world" where
  "ts_ms w = (case clock w of [] \<Rightarrow> (0, w) | t # ts \<Rightarrow> (t, w\<lparr>clock := ts\<rparr>))"

definition uuid4 :: "world \<Rightarrow> string \<times> world" where
  "uuid4 w = (case uuids w of [] \<Rightarrow> ([], w) | u # us \<Rightarrow> (u, w\<lparr>uuids := us\<rparr>))"

subsection \<open>Helpers\<close>

text \<open>\<^verbatim>\<open>host.endswith(d)\<close>.\<close>

definition endswith :: "string \<Rightarrow> string \<Rightarrow> bool" where
  "endswith s d = (length d \<le> length s \<and> drop (length s - length d) s = d)"

text \<open>
  \<^verbatim>\<open>_domain_allowed\<close>. \<open>netloc\<close> stands for \<^verbatim>\<open>urlparse(url).netloc\<close> of the standard
  library, \<open>None\<close> where it raises.
\<close>

definition domain_allowed ::
  "(string \<Rightarrow> string option) \<Rightarrow> string \<Rightarrow> string list option \<Rightarrow> bool" where
  "domain_allowed netloc u whitelist =
     (case whitelist of
        None \<Rightarrow> True
      | Some [] \<Rightarrow> True
      | Some (d # ds) \<Rightarrow>
          (case netloc u of
             None \<Rightarrow> True
           | Some host \<Rightarrow> list_ex (\<lambda>d'. endswith host d') (d # ds)))"

text \<open>The file names of the screenshots: \<^verbatim>\<open>step_{step_idx:06d}_obs.png\<close>.\<close>

fun digits :: "nat \<Rightarrow> string" where
  "digits n =
     (if n < 10 then [''0123456789'' ! n]
      else digits (n div 10) @ [''0123456789'' ! (n mod 10)])"

declare digits.simps [simp del]

definition pad6 :: "nat \<Rightarrow> string" where
  "pad6 n = replicate (6 - length (digits n)) CHR ''0'' @ digits n"

definition save_screenshot :: "string \<Rightarrow> int \<Rightarrow> string" where
  "save_screenshot ep_dir step_idx = ep_dir @ ''/step_'' @ pad6 (nat step_idx) @ ''_obs.png''"

definition save_next_screenshot :: "string \<Rightarrow> int \<Rightarrow> string" where
  "save_next_screenshot ep_dir step_idx =
     ep_dir @ ''/step_'' @ pad6 (nat step_idx) @ ''_next_obs.png''"

text \<open>Sequencing of calls that may raise.\<close>

definition then_do :: "error + 'a \<Rightarrow> ('a \<Rightarrow> error + 'b) \<Rightarrow> error + 'b" where
  "then_do m f = (case m of Inl e \<Rightarrow> Inl e | Inr v \<Rightarrow> f v)"

subsection \<open>The random policy\<close>

definition acts :: "string list" where
  "acts = [''scroll_document'', ''scroll_at'', ''hover_at'', ''click_at'',
           ''wait_5_seconds'', ''go_back'', ''go_forward'', ''search'']"

text \<open>
  \<^verbatim>\<open>_random_action\<close>: the kind is drawn first, then the screen size is asked, then
  the arguments are drawn.
\<close>

definition random_action ::
  "'e Computer \<Rightarrow> 'e \<Rightarrow> rand \<Rightarrow> error + (ActionRecord \<times> rand)" where
  "random_action computer e r =
     then_do (choice acts r) (\<lambda>(nm, r1).
       case screen_size computer e of
         None \<Rightarrow> Inl EnvError
       | Some (W, H) \<Rightarrow>
           if nm = ''hover_at'' \<or> nm = ''click_at'' then
             then_do (randint 10 (max 10 (W - 10)) r1) (\<lambda>(x, r2).
             then_do (randint 80 (max 80 (H - 10)) r2) (\<lambda>(y, r3).
               Inr (\<lparr>name = nm, args = [(''x'', PInt x), (''y'', PInt y)]\<rparr>, r3)))
           else if nm = ''scroll_at'' then
             then_do (randint 10 (max 10 (W - 10)) r1) (\<lambda>(x, r2).
             then_do (randint 120 (max 120 (H - 10)) r2) (\<lambda>(y, r3).
             then_do (choice [''up'', ''down''] r3) (\<lambda>(direction, r4).
             then_do (choice [200, 400, 800] r4) (\<lambda>(magnitude, r5).
               Inr (\<lparr>name = nm,
                     args = [(''x'', PInt x), (''y'', PInt y),
                             (''direction'', PStr direction), (''magnitude'', PInt magnitude)]\<rparr>,
                    r5)))))
           else if nm = ''scroll_document'' then
             then_do (choice [''up'', ''down''] r1) (\<lambda>(direction, r2).
               Inr (\<lparr>name = nm, args = [(''direction'', PStr direction)]\<rparr>, r2))
           else if nm = ''wait_5_seconds'' then Inr (\<lparr>name = nm, args = []\<rparr>, r1)
           else if nm = ''go_back'' \<or> nm = ''go_forward'' \<or> nm = ''search''
             then Inr (\<lparr>name = nm, args = []\<rparr>, r1)
           else Inr (\<lparr>name = ''wait_5_seconds'', args = []\<rparr>, r1))"

subsection \<open>Dispatch\<close>

text \<open>\<^verbatim>\<open>d[k]\<close> raises \<^verbatim>\<open>KeyError\<close> for a missing key.\<close>

definition item :: "pydict \<Rightarrow> string \<Rightarrow> error + pyval" where
  "item d k = (case map_of d k of None \<Rightarrow> Inl KeyError | Some v \<Rightarrow> Inr v)"

text \<open>
  The chain of tests on \<^verbatim>\<open>action.name\<close>: the operation to call with its arguments,
  or the \<^verbatim>\<open>KeyError\<close> of a missing argument. Unknown kinds wait.
\<close>

definition dispatch :: "ActionRecord \<Rightarrow> error + env_call" where
  "dispatch a =
     (let nm = name a; ar = args a in
      if nm = ''open_web_browser'' then Inr OpenWebBrowser
      else if nm = ''click_at'' then
        then_do (item ar ''x'') (\<lambda>x. then_do (item ar ''y'') (\<lambda>y. Inr (ClickAt x y)))
      else if nm = ''hover_at'' then
        then_do (item ar ''x'') (\<lambda>x. then_do (item ar ''y'') (\<lambda>y. Inr (HoverAt x y)))
      else if nm = ''type_text_at'' then
        then_do (item ar ''x'') (\<lambda>x. then_do (item ar ''y'') (\<lambda>y.
          Inr (TypeTextAt x y (dget_or ar ''text'' (PStr []))
                 (dget_or ar ''press_enter'' (PBool False))
                 (dget_or ar ''clear_before_typing'' (PBool True)))))
      else if nm = ''scroll_document'' then
        then_do (item ar ''direction'') (\<lambda>d. Inr (ScrollDocument d))
      else if nm = ''scroll_at'' then
        then_do (item ar ''x'') (\<lambda>x. then_do (item ar ''y'') (\<lambda>y.
        then_do (item ar ''direction'') (\<lambda>d. then_do (item ar ''magnitude'') (\<lambda>m.
          Inr (ScrollAt x y d m)))))
      else if nm = ''wait_5_seconds'' then Inr Wait5Seconds
      else if nm = ''go_back'' then Inr GoBack
      else if nm = ''go_forward'' then Inr GoForward
      else if nm = ''search'' then Inr Search
      else if nm = ''navigate'' then then_do (item ar ''url'') (\<lambda>u. Inr (Navigate u))
      else if nm = ''key_combination'' then
        then_do (item ar ''keys'') (\<lambda>k. Inr (KeyCombination k))
      else if nm = ''drag_and_drop'' then
        then_do (item ar ''x'') (\<lambda>x. then_do (item ar ''y'') (\<lambda>y.
        then_do (item ar ''destination_x'') (\<lambda>dx. then_do (item ar ''destination_y'') (\<lambda>dy.
          Inr (DragAndDrop x y dx dy)))))
      else Inr Wait5Seconds)"

subsection \<open>The collection loop\<close>

text \<open>
  The local state of \<^verbatim>\<open>collect_episodes\<close> inside an episode: the environment, the
  outside world, the current observation, the variable \<^verbatim>\<open>action\<close> (\<open>None\<close> while
  it has never been assigned; it is a local of the function, so it outlives steps and
  episodes) and the steps recorded so far.
\<close>

record 'e collector =
  c_env :: 'e
  c_world :: world
  c_obs :: Observation
  c_action :: "ActionRecord option"
  c_steps :: "StepRecord list"

text \<open>
  The \<^verbatim>\<open>try\<close> block and its handler: the action is dispatched; when that raises (a
  missing argument or the environment), half a second is slept and the current state is
  asked for instead, outside any handler.
\<close>

definition execute ::
  "'e Computer \<Rightarrow> ActionRecord \<Rightarrow> 'e \<Rightarrow> world \<Rightarrow> error + (EnvState \<times> 'e \<times> world)" where
  "execute computer a e w =
     (case (case dispatch a of Inl err \<Rightarrow> (None, e) | Inr c \<Rightarrow> call computer c e) of
        (Some st, e') \<Rightarrow> Inr (st, e', w)
      | (None, e') \<Rightarrow>
          (case call computer CurrentState e' of
             (Some st, e'') \<Rightarrow> Inr (st, e'', w\<lparr>sleeps := sleeps w + 1\<rparr>)
           | (None, e'') \<Rightarrow> Inl EnvError))"

text \<open>
  The body of the loop over \<open>t\<close>. Under the domain guard the environment navigates to
  the initial URL and \<^verbatim>\<open>action\<close> is not assigned; otherwise an action is sampled,
  assigned and executed. The step is recorded with
  \<^verbatim>\<open>action if 'action' in locals() else ActionRecord(name='navigate', ...)\<close>.
\<close>

definition collect_step ::
  "'e Computer \<Rightarrow> (string \<Rightarrow> string option) \<Rightarrow> CollectConfig \<Rightarrow> string \<Rightarrow> int \<Rightarrow>
     'e collector \<Rightarrow> error + 'e collector" where
  "collect_step computer netloc cfg ep_dir t c =
     then_do
       (if \<not> domain_allowed netloc (url (c_obs c)) (whitelist_domains cfg) then
          (case call computer (Navigate (PStr (initial_url cfg))) (c_env c) of
             (None, e') \<Rightarrow> Inl EnvError
           | (Some st, e') \<Rightarrow> Inr (st, e', c_world c, c_action c))
        else
          then_do (random_action computer (c_env c) (rng (c_world c))) (\<lambda>(a, r').
          then_do (execute computer a (c_env c) ((c_world c)\<lparr>rng := r'\<rparr>)) (\<lambda>(st, e', w').
            Inr (st, e', w', Some a))))
       (\<lambda>(next_state, e', w', act).
          let next_img_path = save_next_screenshot ep_dir t;
              (ts, w'') = ts_ms w';
              nobs = \<lparr>url = state_url next_state, timestamp_ms = ts,
                      image_path = next_img_path, dom_path = None\<rparr>;
              step = \<lparr>step_index = t, obs = c_obs c,
                      action = (case act of
                                  Some a \<Rightarrow> a
                                | None \<Rightarrow> \<lparr>name = ''navigate'',
                                           args = [(''url'', PStr (initial_url cfg))]\<rparr>),
                      next_obs = nobs, meta = []\<rparr>
          in Inr (c\<lparr>c_env := e', c_world := w'', c_obs := nobs, c_action := act,
                    c_steps := c_steps c @ [step]\<rparr>))"

fun collect_steps ::
  "'e Computer \<Rightarrow> (string \<Rightarrow> string option) \<Rightarrow> CollectConfig \<Rightarrow> string \<Rightarrow> int list \<Rightarrow>
     'e collector \<Rightarrow> error + 'e collector" where
  "collect_steps computer netloc cfg ep_dir [] c = Inr c"
| "collect_steps computer netloc cfg ep_dir (t # ts) c =
     then_do (collect_step computer netloc cfg ep_dir t c)
       (collect_steps computer netloc cfg ep_dir ts)"

text \<open>
  The start of one turn of the loop over episodes, on the environment the factory made:
  the identifier and directory of the episode, and the browser opened, outside any
  handler, for the initial observation.
\<close>

definition episode_start ::
  "'e Computer \<Rightarrow> CollectConfig \<Rightarrow> 'e \<Rightarrow> world \<Rightarrow> ActionRecord option \<Rightarrow>
     error + (string \<times> string \<times> 'e collector)" where
  "episode_start computer cfg e0 w act =
     (let (eid, w1) = uuid4 w;
          ep_dir = output_dir cfg @ ''/episodes/'' @ eid
      in case call computer OpenWebBrowser e0 of
           (None, e1) \<Rightarrow> Inl EnvError
         | (Some state, e1) \<Rightarrow>
             (let obs_path = save_screenshot ep_dir 0;
                  (ts, w2) = ts_ms w1;
                  ob = \<lparr>url = state_url state, timestamp_ms = ts,
                        image_path = obs_path, dom_path = None\<rparr>
              in Inr (eid, ep_dir,
                      \<lparr>c_env = e1, c_world = w2, c_obs = ob, c_action = act, c_steps = []\<rparr>)))"

text \<open>
  One turn of the loop over episodes: after the start, \<open>t\<close> runs over
  \<^verbatim>\<open>range(1, cfg.max_steps_per_episode + 1)\<close>.
\<close>

definition run_episode ::
  "'e Computer \<Rightarrow> (string \<Rightarrow> string option) \<Rightarrow> CollectConfig \<Rightarrow> 'e \<Rightarrow> world \<Rightarrow>
     ActionRecord option \<Rightarrow> error + (EpisodeRecord \<times> world \<times> ActionRecord option)" where
  "run_episode computer netloc cfg e0 w act =
     then_do (episode_start computer cfg e0 w act) (\<lambda>(eid, ep_dir, c0).
     then_do (collect_steps computer netloc cfg ep_dir [1..max_steps_per_episode cfg] c0) (\<lambda>c.
       Inr (\<lparr>episode_id = eid, steps = c_steps c\<rparr>, c_world c, c_action c)))"

fun collect_loop ::
  "'e Computer \<Rightarrow> (string \<Rightarrow> string option) \<Rightarrow> (nat \<Rightarrow> 'e) \<Rightarrow> CollectConfig \<Rightarrow> nat list \<Rightarrow>
     EpisodeRecord list \<times> world \<times> ActionRecord option \<Rightarrow>
     error + (EpisodeRecord list \<times> world \<times> ActionRecord option)" where
  "collect_loop computer netloc env_factory cfg [] acc = Inr acc"
| "collect_loop computer netloc env_factory cfg (epi # rest) (episodes_meta, w, act) =
     then_do (run_episode computer netloc cfg (env_factory epi) w act)
       (\<lambda>(episode, w', act').
          collect_loop computer netloc env_factory cfg rest (episodes_meta @ [episode], w', act'))"

text \<open>
  \<^verbatim>\<open>collect_episodes\<close>: \<open>seeded\<close> is the random source that \<^verbatim>\<open>random.seed\<close> sets up
  for a seed, \<open>env_factory epi\<close> the environment made for the episode of index
  \<open>epi\<close>. The result is the list of episodes, or the exception that ended the run.
  Writing the screenshots and index files is not modelled beyond the paths recorded;
  storage is taken to be writable.
\<close>

definition collect_episodes ::
  "'e Computer \<Rightarrow> (string \<Rightarrow> string option) \<Rightarrow> (nat \<Rightarrow> 'e) \<Rightarrow> (int \<Rightarrow> rand) \<Rightarrow>
     CollectConfig \<Rightarrow> world \<Rightarrow> error + EpisodeRecord list" where
  "collect_episodes computer netloc env_factory seeded cfg w0 =
     then_do
       (collect_loop computer netloc env_factory cfg [0..<nat (episodes cfg)]
          ([], w0\<lparr>rng := seeded (seed cfg)\<rparr>, None))
       (\<lambda>(episodes_meta, w, act). Inr episodes_meta)"

text \<open>
  Whether executing an action raises inside the \<^verbatim>\<open>try\<close> block (a missing argument,
  or the operation itself), and the environment that is left when it does.
\<close>

definition raises :: "'e Computer \<Rightarrow> ActionRecord \<Rightarrow> 'e \<Rightarrow> bool" where
  "raises computer a e =
     (case dispatch a of Inl err \<Rightarrow> True | Inr c \<Rightarrow> fst (call computer c e) = None)"

definition after_raise :: "'e Computer \<Rightarrow> ActionRecord \<Rightarrow> 'e \<Rightarrow> 'e" where
  "after_raise computer a e =
     (case dispatch a of Inl err \<Rightarrow> e | Inr c \<Rightarrow> snd (call computer c e))"


section \<open>Concrete inputs\<close>

text \<open>Inputs on which the theorems below are instantiated and the code is run.\<close>

definition demo_prior :: BehaviorPrior where
  "demo_prior = BehaviorPrior_init (1440, 900)"

definition demo_rand :: rand where
  "demo_rand = \<lparr>normals = [], draws = [1, 2, 3]\<rparr>"

definition demo_args :: pydict where
  "demo_args = [(''x'', PInt 10), (''y'', PInt 20), (''note'', PStr ''keep'')]"

text \<open>A prior holding one \<^verbatim>\<open>click_at\<close> sample at \<open>(20, 20)\<close>, as the fitting pass leaves it.\<close>

definition one_sample_prior :: BehaviorPrior where
  "one_sample_prior =
     \<lparr>screen_w = 1440, screen_h = 900,
      action_counts = [KStr ''click_at'' \<mapsto> 1],
      action_stats = [KStr ''click_at'' \<mapsto>
         \<lparr>count = 1, mean_x = Some 20, mean_y = Some 20, std_x = Some 0, std_y = Some 0,
          direction_counts = None, magnitudes = None,
          priv_m2x = Some 0, priv_m2y = Some 0, priv_n = Some 1\<rparr>],
      stats_default = True\<rparr>"


text \<open>
  Collection runs. \<open>demo_netloc\<close> gives \<^verbatim>\<open>urlparse(url).netloc\<close> for the two URLs
  that occur. In \<open>link_computer\<close> the state of the environment is the URL shown; a
  click follows a link to another site and navigation goes where it is told. In
  \<open>flaky_computer\<close> the state counts the operations dispatched so far and the third one
  raises. In \<open>blocked_computer\<close> navigation raises, and in \<open>dead_computer\<close> everything
  but opening the browser does.
\<close>

definition demo_netloc :: "string \<Rightarrow> string option" where
  "demo_netloc u =
     (if u = ''https://example.com/'' then Some ''example.com''
      else if u = ''https://evil.com/'' then Some ''evil.com''
      else Some [])"

definition page :: "string \<Rightarrow> EnvState" where
  "page u = \<lparr>state_url = u, state_screenshot = ''png''\<rparr>"

definition link_computer :: "string Computer" where
  "link_computer =
     \<lparr>call = (\<lambda>c e. case c of
                ClickAt x y \<Rightarrow> (Some (page ''https://evil.com/''), ''https://evil.com/'')
              | Navigate (PStr u) \<Rightarrow> (Some (page u), u)
              | _ \<Rightarrow> (Some (page e), e)),
      screen_size = (\<lambda>e. Some (1440, 900))\<rparr>"

definition flaky_computer :: "nat Computer" where
  "flaky_computer =
     \<lparr>call = (\<lambda>c n. case c of
                OpenWebBrowser \<Rightarrow> (Some (page ''https://example.com/''), n)
              | Navigate u \<Rightarrow> (Some (page ''https://example.com/''), n)
              | CurrentState \<Rightarrow> (Some (page ''https://example.com/''), n)
              | _ \<Rightarrow> (if n = 2 then None else Some (page ''https://example.com/''), Suc n)),
      screen_size = (\<lambda>n. Some (1440, 900))\<rparr>"

definition blocked_computer :: "string Computer" where
  "blocked_computer =
     \<lparr>call = (\<lambda>c e. case c of Navigate u \<Rightarrow> (None, e) | _ \<Rightarrow> (Some (page e), e)),
      screen_size = (\<lambda>e. Some (1440, 900))\<rparr>"

definition dead_computer :: "string Computer" where
  "dead_computer =
     \<lparr>call = (\<lambda>c e. case c of OpenWebBrowser \<Rightarrow> (Some (page e), e) | _ \<Rightarrow> (None, e)),
      screen_size = (\<lambda>e. Some (1440, 900))\<rparr>"

text \<open>
  In \<open>shut_computer\<close> opening the browser raises, and in \<open>blind_computer\<close> the
  screen size query does.
\<close>

definition shut_computer :: "string Computer" where
  "shut_computer =
     \<lparr>call = (\<lambda>c e. case c of OpenWebBrowser \<Rightarrow> (None, e) | _ \<Rightarrow> (Some (page e), e)),
      screen_size = (\<lambda>e. Some (1440, 900))\<rparr>"

definition blind_computer :: "string Computer" where
  "blind_computer =
     \<lparr>call = (\<lambda>c e. (Some (page e), e)), screen_size = (\<lambda>e. None)\<rparr>"

definition guard_cfg :: CollectConfig where
  "guard_cfg =
     \<lparr>output_dir = ''data'', episodes = 1, max_steps_per_episode = 2,
      initial_url = ''https://example.com/'', save_dom = False,
      whitelist_domains = Some [''example.com''], seed = 0\<rparr>"

definition five_cfg :: CollectConfig where
  "five_cfg =
     \<lparr>output_dir = ''data'', episodes = 1, max_steps_per_episode = 5,
      initial_url = ''https://example.com/'', save_dom = False,
      whitelist_domains = None, seed = 0\<rparr>"

definition demo_world :: world where
  "demo_world =
     \<lparr>rng = \<lparr>normals = [], draws = []\<rparr>, clock = [], uuids = [''ep0''], sleeps = 0\<rparr>"


section \<open>Sampled coordinates stay on the screen\<close>

lemma clamp_coord_bounds: "0 < w \<Longrightarrow> 0 \<le> clamp_coord w x \<and> clamp_coord w x < w"
  by (simp add: clamp_coord_def)

text \<open>
  C7. For every screen size \<open>(W, H)\<close> of a screen, that is with \<open>W\<close> and \<open>H\<close> at least
  1, whatever the action kind, the statistics held for it and the random draws, the pair
  \<open>(x, y)\<close> that a call of \<^verbatim>\<open>sample_coordinates\<close> returns satisfies \<open>0 \<le> x < W\<close> and
  \<open>0 \<le> y < H\<close>.
\<close>

theorem sample_coordinates_in_bounds:
  assumes "0 < screen_w self" and "0 < screen_h self"
    and "fst (sample_coordinates self nm r) = Inr (x, y)"
  shows "0 \<le> x \<and> x < screen_w self \<and> 0 \<le> y \<and> y < screen_h self"
  using assms
  by (auto simp: sample_coordinates_def clamp_coord_bounds Let_def
           split: option.splits prod.splits sum.splits if_splits)

text \<open>
  C7, witness: on the prior with one \<^verbatim>\<open>click_at\<close> sample, draws far to the right of
  and far above the screen are clamped to its last column and first row.
\<close>

theorem sample_coordinates_in_bounds_witness:
  "fst (sample_coordinates one_sample_prior ''click_at'' \<lparr>normals = [10, -10], draws = []\<rparr>)
     = Inr (1439, 0)
   \<and> (0::int) \<le> 1439 \<and> 1439 < screen_w one_sample_prior
   \<and> (0::int) \<le> 0 \<and> 0 < screen_h one_sample_prior"
proof -
  have run: "fst (sample_coordinates one_sample_prior ''click_at''
               \<lparr>normals = [10, -10], draws = []\<rparr>) = Inr (1439, 0)"
    by (simp add: sample_coordinates_def one_sample_prior_def sigma_or_def sigma_raises_def
          float_range_def gauss_int_def finite_float_def gauss_def py_int_def clamp_coord_def)
  have w: "0 < screen_w one_sample_prior" and h: "0 < screen_h one_sample_prior"
    by (simp_all add: one_sample_prior_def)
  from sample_coordinates_in_bounds[OF w h run] run show ?thesis by simp
qed


section \<open>Validation of proposed arguments: frame and idempotence\<close>

lemma new_dict_props:
  assumes "new_dict d h = (out, h0)"
  shows "out = length h" and "h0 = h @ [d]"
  using assms by (auto simp: new_dict_def)

lemma length_set_item [simp]: "length (set_item a k v h) = length h"
  by (simp add: set_item_def)

lemma set_item_other: "b \<noteq> a \<Longrightarrow> set_item a k v h ! b = h ! b"
  by (simp add: set_item_def)

lemma set_item_same:
  "a < length h \<Longrightarrow> map_of (set_item a k v h ! a) = (map_of (h ! a))(k \<mapsto> v)"
  by (simp add: set_item_def update_conv')

lemma dget_set_item_other:
  "a < length h \<Longrightarrow> k' \<noteq> k \<Longrightarrow> dget (set_item a k v h ! a) k' = dget (h ! a) k'"
  by (simp add: dget_def set_item_same)

lemma dget_set_item_same:
  "a < length h \<Longrightarrow> dget (set_item a k v h ! a) k = v"
  by (simp add: dget_def set_item_same)

lemma adjust_coords_frame:
  assumes "adjust_coords self nm out h r = (res, h', r')" and "out < length h"
  shows "length h' = length h"
    and "b \<noteq> out \<Longrightarrow> h' ! b = h ! b"
    and "k \<noteq> ''x'' \<Longrightarrow> k \<noteq> ''y'' \<Longrightarrow> map_of (h' ! out) k = map_of (h ! out) k"
  using assms
  by (auto simp: adjust_coords_def set_item_other set_item_same
           split: if_splits prod.splits sum.splits)

lemma adjust_scroll_frame:
  assumes "adjust_scroll self nm out h r = (res, h', r')" and "out < length h"
  shows "length h' = length h"
    and "b \<noteq> out \<Longrightarrow> h' ! b = h ! b"
    and "k \<noteq> ''direction'' \<Longrightarrow> k \<noteq> ''magnitude'' \<Longrightarrow> map_of (h' ! out) k = map_of (h ! out) k"
  using assms
  by (auto simp: adjust_scroll_def Let_def set_item_other set_item_same
           split: if_splits prod.splits sum.splits)

text \<open>
  C10. \<^verbatim>\<open>validate_or_adjust\<close> leaves every dictionary that was in the store before the
  call as it was, the caller's \<open>args\<close> among them, whether it returns or raises. When
  it returns, the result is a new dictionary, and under every key other than \<open>x\<close>,
  \<open>y\<close>, \<open>direction\<close> and \<open>magnitude\<close> it holds exactly what \<open>args\<close> holds
  (nothing when \<open>args\<close> is \<^verbatim>\<open>None\<close>): \<open>destination_x\<close> and \<open>destination_y\<close>
  are never tested against the screen and never rewritten.
\<close>

theorem validate_or_adjust_frame:
  assumes "validate_or_adjust self nm ar h r = (res, h', r')"
    and "case ar of None \<Rightarrow> True | Some a \<Rightarrow> a < length h"
  shows "(\<forall>b < length h. h' ! b = h ! b) \<and>
         (\<forall>out. res = Inr out \<longrightarrow> length h \<le> out \<and>
            (\<forall>k. k \<notin> {''x'', ''y'', ''direction'', ''magnitude''} \<longrightarrow>
               map_of (h' ! out) k = (case ar of None \<Rightarrow> None | Some a \<Rightarrow> map_of (h ! a) k)))"
proof -
  define d where "d = (case ar of None \<Rightarrow> [] | Some a \<Rightarrow> h ! a)"
  define out where "out = length h"
  define h0 where "h0 = h @ [d]"
  obtain e1 h1 r1 where c: "adjust_coords self nm out h0 r = (e1, h1, r1)"
    by (cases "adjust_coords self nm out h0 r") auto
  obtain e2 h2 r2 where s: "adjust_scroll self nm out h1 r1 = (e2, h2, r2)"
    by (cases "adjust_scroll self nm out h1 r1") auto
  have o0: "out < length h0" by (simp add: out_def h0_def)
  have l1: "length h1 = length h0" using adjust_coords_frame(1)[OF c o0] .
  have o1: "out < length h1" using o0 l1 by simp
  have v: "validate_or_adjust self nm ar h r =
             (case e1 of Some e \<Rightarrow> (Inl e, h1, r1)
              | None \<Rightarrow> (case e2 of Some e \<Rightarrow> (Inl e, h2, r2) | None \<Rightarrow> (Inr out, h2, r2)))"
    using c s by (simp add: validate_or_adjust_def new_dict_def d_def out_def h0_def split: option.splits)
  have old0: "\<And>b. b < length h \<Longrightarrow> h0 ! b = h ! b"
    by (simp add: h0_def nth_append)
  have old1: "\<And>b. b < length h \<Longrightarrow> h1 ! b = h ! b"
    using adjust_coords_frame(2)[OF c o0] old0 out_def by auto
  have old2: "\<And>b. b < length h \<Longrightarrow> h2 ! b = h ! b"
    using adjust_scroll_frame(2)[OF s o1] old1 out_def by auto
  have hh: "h' = h1 \<or> h' = h2"
    using v assms(1) by (auto split: option.splits)
  have part1: "\<forall>b < length h. h' ! b = h ! b"
    using hh old1 old2 by auto
  have cell0: "h0 ! out = d" by (simp add: h0_def out_def)
  have dmap: "\<And>k. map_of d k = (case ar of None \<Rightarrow> None | Some a \<Rightarrow> map_of (h ! a) k)"
    by (simp add: d_def split: option.splits)
  have part2: "\<forall>o'. res = Inr o' \<longrightarrow> length h \<le> o' \<and>
            (\<forall>k. k \<notin> {''x'', ''y'', ''direction'', ''magnitude''} \<longrightarrow>
               map_of (h' ! o') k = (case ar of None \<Rightarrow> None | Some a \<Rightarrow> map_of (h ! a) k))"
  proof (intro allI impI)
    fix o' assume r: "res = Inr o'"
    then have eq: "o' = out" "h' = h2"
      using v assms(1) by (auto split: option.splits)
    have "\<And>k. k \<notin> {''x'', ''y'', ''direction'', ''magnitude''} \<Longrightarrow> map_of (h2 ! out) k = map_of d k"
    proof -
      fix k :: string assume k: "k \<notin> {''x'', ''y'', ''direction'', ''magnitude''}"
      have "map_of (h2 ! out) k = map_of (h1 ! out) k"
        using adjust_scroll_frame(3)[OF s o1, of k] k by simp
      also have "\<dots> = map_of (h0 ! out) k"
        using adjust_coords_frame(3)[OF c o0, of k] k by simp
      finally show "map_of (h2 ! out) k = map_of d k" using cell0 by simp
    qed
    then show "length h \<le> o' \<and>
            (\<forall>k. k \<notin> {''x'', ''y'', ''direction'', ''magnitude''} \<longrightarrow>
               map_of (h' ! o') k = (case ar of None \<Rightarrow> None | Some a \<Rightarrow> map_of (h ! a) k))"
      using eq dmap out_def by simp
  qed
  show ?thesis using part1 part2 by blast
qed


lemma randint_ok_indep: "randint a b r = Inr v \<Longrightarrow> \<exists>v'. randint a b r' = Inr v'"
  by (auto simp: randint_def Let_def split: if_splits prod.splits)

lemma choice_ok_indep: "choice xs r = Inr v \<Longrightarrow> \<exists>v'. choice xs r' = Inr v'"
  by (auto simp: choice_def Let_def split: if_splits prod.splits)

lemma sample_direction_ok_indep:
  "sample_direction st a r = Inr v \<Longrightarrow> \<exists>v'. sample_direction st a r' = Inr v'"
  unfolding sample_direction_def
  by (auto split: option.splits list.splits sum.splits if_splits
           dest: randint_ok_indep[of _ _ r _ r'] choice_ok_indep[of _ r _ r'])

lemma sample_magnitude_ok_indep:
  "sample_magnitude st a r = Inr v \<Longrightarrow> \<exists>v'. sample_magnitude st a r' = Inr v'"
  unfolding sample_magnitude_def
  by (auto split: option.splits list.splits sum.splits if_splits
           dest: choice_ok_indep[of _ r _ r'])

lemma sample_magnitude_total: "\<exists>v. sample_magnitude st a r = Inr v"
  unfolding sample_magnitude_def choice_def
  by (auto simp: Let_def split: option.splits list.splits prod.splits)

lemma sample_scroll_ok_indep:
  assumes "fst (sample_scroll self a r) = Inr v"
  shows "\<exists>v'. fst (sample_scroll self a r') = Inr v'"
proof -
  let ?st = "action_stats self (KStr (if a then ''scroll_at'' else ''scroll_document''))"
  from assms obtain c r1 where d: "sample_direction ?st a r = Inr (c, r1)"
    by (auto simp: sample_scroll_def Let_def split: sum.splits prod.splits)
  from sample_direction_ok_indep[OF d, of r'] obtain c' r1' where
    d': "sample_direction ?st a r' = Inr (c', r1')" by auto
  from sample_magnitude_total[of ?st a r1'] obtain m r2' where
    m': "sample_magnitude ?st a r1' = Inr (m, r2')" by auto
  show ?thesis using d' m' by (simp add: sample_scroll_def Let_def)
qed


lemma need_coords_cong:
  "dget d' ''x'' = dget d ''x'' \<Longrightarrow> dget d' ''y'' = dget d ''y'' \<Longrightarrow>
   need_coords self d' = need_coords self d"
  by (simp add: need_coords_def)

lemma dget_cong: "map_of d' k = map_of d k \<Longrightarrow> dget d' k = dget d k"
  by (simp add: dget_def)

lemma adjust_scroll_direction:
  assumes "adjust_scroll self nm out h r = (None, h', r')" and "out < length h"
    and "nm = ''scroll_at'' \<or> nm = ''scroll_document''"
  shows "hashable (dget (h' ! out) ''direction'')"
    and "\<exists>v. fst (sample_scroll self (nm = ''scroll_at'') r) = Inr v"
  using assms
  by (auto simp: adjust_scroll_def Let_def dget_set_item_other dget_set_item_same
           split: if_splits prod.splits sum.splits)

lemma adjust_scroll_returns:
  assumes "out < length h"
    and "hashable (dget (h ! out) ''direction'')"
    and "fst (sample_scroll self (nm = ''scroll_at'') r) = Inr v"
  shows "\<exists>h' r'. adjust_scroll self nm out h r = (None, h', r')"
  using assms
  by (cases "sample_scroll self (nm = ''scroll_at'') r")
     (auto simp: adjust_scroll_def Let_def split: prod.splits)

lemma validate_unfold:
  "validate_or_adjust self nm (Some a) h r =
     (case adjust_coords self nm (length h) (h @ [h ! a]) r of
        (Some e, h1, r1) \<Rightarrow> (Inl e, h1, r1)
      | (None, h1, r1) \<Rightarrow>
          (case adjust_scroll self nm (length h) h1 r1 of
             (Some e, h2, r2) \<Rightarrow> (Inl e, h2, r2)
           | (None, h2, r2) \<Rightarrow> (Inr (length h), h2, r2)))"
  by (simp add: validate_or_adjust_def new_dict_def)

lemma adjust_coords_noop:
  "\<not> need_coords self (h ! out) \<Longrightarrow> adjust_coords self nm out h r = (None, h, r)"
  by (simp add: adjust_coords_def)

lemma validate_valid_coords:
  assumes a: "a < length h" and nn: "\<not> need_coords self (h ! a)"
    and v: "validate_or_adjust self nm (Some a) h r = (Inr out, h', r')"
  shows "out < length h'"
    and "dget (h' ! out) ''x'' = dget (h ! a) ''x''"
    and "dget (h' ! out) ''y'' = dget (h ! a) ''y''"
    and "nm = ''scroll_at'' \<or> nm = ''scroll_document'' \<Longrightarrow>
           hashable (dget (h' ! out) ''direction'') \<and>
           (\<exists>w. fst (sample_scroll self (nm = ''scroll_at'') r) = Inr w)"
proof -
  let ?h0 = "h @ [h ! a]"
  have c0: "?h0 ! length h = h ! a" by simp
  have c: "adjust_coords self nm (length h) ?h0 r = (None, ?h0, r)"
    using nn by (simp add: adjust_coords_noop)
  from v c have s: "adjust_scroll self nm (length h) ?h0 r = (None, h', r')" and o: "out = length h"
    by (auto simp: validate_unfold split: prod.splits option.splits)
  have l: "length h < length ?h0" by simp
  show "out < length h'" using adjust_scroll_frame(1)[OF s l] o by simp
  have "map_of (h' ! out) ''x'' = map_of (h ! a) ''x''"
    using adjust_scroll_frame(3)[OF s l, of "''x''"] o by simp
  then show "dget (h' ! out) ''x'' = dget (h ! a) ''x''" by (rule dget_cong)
  have "map_of (h' ! out) ''y'' = map_of (h ! a) ''y''"
    using adjust_scroll_frame(3)[OF s l, of "''y''"] o by simp
  then show "dget (h' ! out) ''y'' = dget (h ! a) ''y''" by (rule dget_cong)
  show "hashable (dget (h' ! out) ''direction'') \<and>
           (\<exists>w. fst (sample_scroll self (nm = ''scroll_at'') r) = Inr w)"
    if "nm = ''scroll_at'' \<or> nm = ''scroll_document''"
    using adjust_scroll_direction[OF s l that] o by simp
qed

lemma validate_returns:
  assumes a: "a < length h" and nn: "\<not> need_coords self (h ! a)"
    and sc: "nm = ''scroll_at'' \<or> nm = ''scroll_document'' \<Longrightarrow>
           hashable (dget (h ! a) ''direction'') \<and>
           (\<exists>w. fst (sample_scroll self (nm = ''scroll_at'') r) = Inr w)"
  shows "\<exists>out h' r'. validate_or_adjust self nm (Some a) h r = (Inr out, h', r')"
proof -
  let ?h0 = "h @ [h ! a]"
  have c: "adjust_coords self nm (length h) ?h0 r = (None, ?h0, r)"
    using nn by (simp add: adjust_coords_noop)
  have "\<exists>h' r'. adjust_scroll self nm (length h) ?h0 r = (None, h', r')"
  proof (cases "nm = ''scroll_at'' \<or> nm = ''scroll_document''")
    case True
    from sc[OF True] obtain w where
      "hashable (dget (?h0 ! length h) ''direction'')"
      "fst (sample_scroll self (nm = ''scroll_at'') r) = Inr w" by auto
    then show ?thesis using adjust_scroll_returns[of "length h" ?h0 self nm r w] by simp
  next
    case False
    then show ?thesis by (simp add: adjust_scroll_def)
  qed
  then show ?thesis using c by (auto simp: validate_unfold)
qed

text \<open>
  C8. For a coordinate action whose \<open>x\<close> and \<open>y\<close> are numbers within
  \<open>[0, width) \<times> [0, height)\<close>: when a first call of \<^verbatim>\<open>validate_or_adjust\<close> returns,
  a second call on its output returns too, whatever the random source then is, and the
  coordinates of the second output are those of the first, which are those of the input.
\<close>

theorem validate_or_adjust_idempotent:
  assumes "nm \<in> CoordActions" and "a < length h"
    and "num_of (dget (h ! a) ''x'') = Some x" and "num_of (dget (h ! a) ''y'') = Some y"
    and "0 \<le> x" and "x < of_int (screen_w self)"
    and "0 \<le> y" and "y < of_int (screen_h self)"
    and "validate_or_adjust self nm (Some a) h r = (Inr o1, h1, r1)"
  shows "\<exists>o2 h2 r2'. validate_or_adjust self nm (Some o1) h1 r2 = (Inr o2, h2, r2') \<and>
           dget (h2 ! o2) ''x'' = dget (h1 ! o1) ''x'' \<and> dget (h2 ! o2) ''y'' = dget (h1 ! o1) ''y'' \<and>
           dget (h1 ! o1) ''x'' = dget (h ! a) ''x'' \<and> dget (h1 ! o1) ''y'' = dget (h ! a) ''y''"
proof -
  have nn: "\<not> need_coords self (h ! a)"
    using assms(3-8) by (simp add: need_coords_def)
  note first = validate_valid_coords[OF assms(2) nn assms(9)]
  have nn1: "\<not> need_coords self (h1 ! o1)"
    using nn need_coords_cong[OF first(2) first(3)] by simp
  have sc: "hashable (dget (h1 ! o1) ''direction'') \<and>
           (\<exists>w. fst (sample_scroll self (nm = ''scroll_at'') r2) = Inr w)"
    if "nm = ''scroll_at'' \<or> nm = ''scroll_document''"
    using first(4)[OF that] sample_scroll_ok_indep[of self "nm = ''scroll_at''" r _ r2] by blast
  from validate_returns[OF first(1) nn1 sc] obtain o2 h2 r2' where
    second: "validate_or_adjust self nm (Some o1) h1 r2 = (Inr o2, h2, r2')" by blast
  note snd = validate_valid_coords[OF first(1) nn1 second]
  show ?thesis using second snd(2,3) first(2,3) by blast
qed


text \<open>
  A run on a \<^verbatim>\<open>scroll_at\<close> proposal with valid coordinates, an extra key and neither
  direction nor magnitude: the copy gets both, sampled from the defaults.
\<close>

lemma demo_first_call:
  "validate_or_adjust demo_prior ''scroll_at'' (Some 0) [demo_args] demo_rand =
     (Inr 1, [demo_args, demo_args @ [(''direction'', PStr ''down''), (''magnitude'', PInt 800)]],
      \<lparr>normals = [], draws = [3]\<rparr>)"
  by (simp add: validate_unfold adjust_coords_def need_coords_def adjust_scroll_def
        sample_scroll_def sample_direction_def sample_magnitude_def choice_def next_draw_def
        demo_prior_def demo_rand_def demo_args_def BehaviorPrior_init_def dget_def
        valid_direction_def set_item_def CoordActions_def Let_def)

text \<open>C8, witness: the second call on the output of that run keeps \<open>(10, 20)\<close>.\<close>

theorem validate_or_adjust_idempotent_witness:
  "\<exists>o2 h2 r2'.
     validate_or_adjust demo_prior ''scroll_at'' (Some 1)
       [demo_args, demo_args @ [(''direction'', PStr ''down''), (''magnitude'', PInt 800)]]
       \<lparr>normals = [], draws = [3]\<rparr> = (Inr o2, h2, r2') \<and>
     dget (h2 ! o2) ''x'' = PInt 10 \<and> dget (h2 ! o2) ''y'' = PInt 20"
  using validate_or_adjust_idempotent[of "''scroll_at''" 0 "[demo_args]" 10 20 demo_prior
          demo_rand 1 "[demo_args, demo_args @ [(''direction'', PStr ''down''), (''magnitude'', PInt 800)]]"
          "\<lparr>normals = [], draws = [3]\<rparr>" "\<lparr>normals = [], draws = [3]\<rparr>"]
        demo_first_call
  by (simp add: CoordActions_def demo_args_def dget_def demo_prior_def BehaviorPrior_init_def)

text \<open>
  C10, witness: in that run the extra key \<open>note\<close> is carried over and the caller's
  dictionary at address 0 is unchanged.
\<close>

theorem validate_or_adjust_frame_witness:
  "map_of ([demo_args, demo_args @ [(''direction'', PStr ''down''), (''magnitude'', PInt 800)]] ! 1) ''note''
     = map_of demo_args ''note'' \<and>
   [demo_args, demo_args @ [(''direction'', PStr ''down''), (''magnitude'', PInt 800)]] ! 0 = demo_args"
  using validate_or_adjust_frame[OF demo_first_call]
  by simp

section \<open>The fitting pass: helpers\<close>

lemma update_scroll_coords:
  "mean_x (update_scroll b ar st) = mean_x st"
  "mean_y (update_scroll b ar st) = mean_y st"
  "std_x (update_scroll b ar st) = std_x st"
  "std_y (update_scroll b ar st) = std_y st"
  "priv_m2x (update_scroll b ar st) = priv_m2x st"
  "priv_m2y (update_scroll b ar st) = priv_m2y st"
  "priv_n (update_scroll b ar st) = priv_n st"
  "count (update_scroll b ar st) = count st"
  by (simp_all add: update_scroll_def Let_def)

lemma coord_x_zero: "dget ar ''x'' \<in> {PInt 0, PFloat 0} \<Longrightarrow> coord_x ar = dget ar ''destination_x''"
  by (auto simp: coord_x_def py_or_def)

lemma coord_y_zero: "dget ar ''y'' \<in> {PInt 0, PFloat 0} \<Longrightarrow> coord_y ar = dget ar ''destination_y''"
  by (auto simp: coord_y_def py_or_def)

lemma update_coords_skip:
  "num_of (coord_x ar) = None \<or> num_of (coord_y ar) = None \<Longrightarrow> update_coords ar st = Inr st"
  by (auto simp: update_coords_def split: option.splits)

section \<open>The fitting pass on a kind seen once\<close>

text \<open>
  C3, the code at the failing input: one episode holding one \<^verbatim>\<open>click_at\<close> step at
  \<open>(10, 10)\<close>, fitted on a 1440 by 900 screen. The kind is observed exactly once and
  its stored deviations are 0, not 288 and 180: the first sample sets them to 0, so the
  closing loop, which only fills a deviation that is \<^verbatim>\<open>None\<close>, leaves them. Sampling
  still uses 288, through the fallback of \<^verbatim>\<open>sample_coordinates\<close>.
\<close>

theorem fit_single_sample_std_zero:
  "\<exists>p st.
     fit_from_episodes (BehaviorPrior_init (1440, 900))
       (Directory [EpisodeDir (Json (episode_doc ''e1'' [click_step 1 (PInt 10) (PInt 10)]))]) = Inr p \<and>
     action_stats p (KStr ''click_at'') = Some st \<and> count st = 1 \<and>
     std_x st = Some 0 \<and> std_y st = Some 0 \<and>
     sigma_or (std_x st) (screen_w p) = 288"
  by (simp add: fit_from_episodes_def episode_doc_def click_step_def fit_episode_def dget_or_def
        fit_step_def dget_def update_stats_def is_coord_action_def
        is_scroll_action_def CoordActions_def update_coords_def coord_x_def coord_y_def
        py_or_def welford_def stats_item_def float_range_def ActionStats0_def BehaviorPrior_init_def finalize_def
        finalize_stats_def Let_def sigma_or_def)

section \<open>The fitting pass and the files it meets\<close>

lemma fit_entries_skip:
  "fit_entries self (filter (\<lambda>e. e \<noteq> NotADir \<and> e \<noteq> EpisodeDir NoFile) es) = fit_entries self es"
proof (induction es arbitrary: self)
  case Nil
  then show ?case by simp
next
  case (Cons e es)
  then show ?case
    by (cases "e = NotADir \<or> e = EpisodeDir NoFile") (auto split: sum.splits)
qed

lemma fit_entries_append:
  "fit_entries self (es1 @ es2) =
     (case fit_entries self es1 of Inl err \<Rightarrow> Inl err | Inr self' \<Rightarrow> fit_entries self' es2)"
  by (induction es1 arbitrary: self) (auto split: sum.splits)

lemma fit_entries_bad:
  "e = EpisodeDir BadJson \<or> e = EpisodeDir Unreadable \<Longrightarrow>
   \<exists>err. fit_entries self (es1 @ e # es2) = Inl err"
  by (auto simp: fit_entries_append split: sum.splits)

text \<open>
  C2, as amended. A missing \<^verbatim>\<open>episodes\<close> directory raises \<^verbatim>\<open>FileNotFoundError\<close> and
  yields no prior. Entries that are not directories and episode directories without an
  index file are skipped: the pass gives what it gives on the corpus without them. An
  index file that exists but cannot be opened or is not JSON is not skipped: wherever it
  stands in the corpus, the pass raises and yields no prior.
\<close>

theorem fit_from_episodes_files:
  "fit_from_episodes self Absent = Inl FileNotFoundError \<and>
   fit_from_episodes self (Directory es) =
     fit_from_episodes self (Directory (filter (\<lambda>e. e \<noteq> NotADir \<and> e \<noteq> EpisodeDir NoFile) es)) \<and>
   (\<exists>err. fit_from_episodes self (Directory (es1 @ EpisodeDir BadJson # es2)) = Inl err) \<and>
   (\<exists>err. fit_from_episodes self (Directory (es1 @ EpisodeDir Unreadable # es2)) = Inl err)"
proof -
  obtain e1 where "fit_entries self (es1 @ EpisodeDir BadJson # es2) = Inl e1"
    using fit_entries_bad[of "EpisodeDir BadJson" self es1 es2] by auto
  moreover obtain e2 where "fit_entries self (es1 @ EpisodeDir Unreadable # es2) = Inl e2"
    using fit_entries_bad[of "EpisodeDir Unreadable" self es1 es2] by auto
  ultimately show ?thesis
    by (simp add: fit_from_episodes_def fit_entries_skip)
qed

text \<open>
  C2, witness: a stray file and an episode directory without index file around a good
  episode change nothing, and a malformed index file after the good episode makes the
  pass raise \<^verbatim>\<open>JSONDecodeError\<close>.
\<close>

theorem fit_from_episodes_files_witness:
  "fit_from_episodes demo_prior
     (Directory [NotADir, EpisodeDir (Json (episode_doc ''e1'' [click_step 1 (PInt 10) (PInt 10)])),
                 EpisodeDir NoFile]) =
   fit_from_episodes demo_prior
     (Directory [EpisodeDir (Json (episode_doc ''e1'' [click_step 1 (PInt 10) (PInt 10)]))]) \<and>
   fit_from_episodes demo_prior
     (Directory [EpisodeDir (Json (episode_doc ''e1'' [click_step 1 (PInt 10) (PInt 10)])),
                 EpisodeDir BadJson]) = Inl JSONDecodeError"
proof -
  have "fit_from_episodes demo_prior
     (Directory ([EpisodeDir (Json (episode_doc ''e1'' [click_step 1 (PInt 10) (PInt 10)]))]
                 @ EpisodeDir BadJson # [])) = Inl JSONDecodeError"
    by (simp add: fit_from_episodes_def episode_doc_def click_step_def fit_episode_def dget_or_def
        fit_step_def dget_def update_stats_def is_coord_action_def
        is_scroll_action_def CoordActions_def update_coords_def coord_x_def coord_y_def
        py_or_def welford_def stats_item_def float_range_def ActionStats0_def BehaviorPrior_init_def demo_prior_def Let_def)
  then show ?thesis
    using fit_from_episodes_files[of demo_prior
        "[NotADir, EpisodeDir (Json (episode_doc ''e1'' [click_step 1 (PInt 10) (PInt 10)])),
          EpisodeDir NoFile]"
        "[EpisodeDir (Json (episode_doc ''e1'' [click_step 1 (PInt 10) (PInt 10)]))]" "[]"]
    by simp
qed

text \<open>
  C2, counterexample to the claim as stated: the \<^verbatim>\<open>episodes\<close> directory exists, and
  the pass does not complete. A malformed index file is not skipped but raises
  \<^verbatim>\<open>JSONDecodeError\<close>; an index file that is valid JSON but a list raises
  \<^verbatim>\<open>AttributeError\<close>.
\<close>

theorem fit_malformed_file_raises:
  "fit_from_episodes (BehaviorPrior_init (1440, 900)) (Directory [EpisodeDir BadJson])
     = Inl JSONDecodeError \<and>
   fit_from_episodes (BehaviorPrior_init (1440, 900)) (Directory [EpisodeDir (Json (PList []))])
     = Inl AttributeError"
  by (simp add: fit_from_episodes_def fit_episode_def)

section \<open>The incremental statistics equal the direct ones\<close>

lemma sum_sq_shift:
  fixes c :: real
  shows "(\<Sum>x\<leftarrow>xs. (x - c)\<^sup>2) = (\<Sum>x\<leftarrow>xs. x\<^sup>2) - 2 * c * sum_list xs + of_nat (length xs) * c\<^sup>2"
  by (induction xs) (simp_all add: power2_eq_square algebra_simps)

lemma mean_alg:
  fixes n S x :: real
  assumes "0 < n"
  shows "S / n + (x - S / n) / (n + 1) = (S + x) / (n + 1)"
proof -
  have "n + 1 \<noteq> 0" "n \<noteq> 0" using assms by auto
  then show ?thesis by (simp add: divide_simps) (simp add: algebra_simps)
qed

lemma m2_alg:
  fixes n S Q x :: real
  assumes "0 < n"
  shows "(Q - S\<^sup>2 / n) + (x - S / n) * (x - (S + x) / (n + 1)) = (Q + x\<^sup>2) - (S + x)\<^sup>2 / (n + 1)"
proof -
  have "n + 1 \<noteq> 0" "n \<noteq> 0" using assms by auto
  then show ?thesis by (simp add: divide_simps power2_eq_square) (simp add: algebra_simps)
qed

lemma sq_alg:
  fixes n S Q :: real
  assumes "n \<noteq> 0"
  shows "Q - 2 * (S / n) * S + n * (S / n)\<^sup>2 = Q - S\<^sup>2 / n"
  using assms by (simp add: power2_eq_square field_simps)

lemma sq_dev_alt:
  assumes "xs \<noteq> []"
  shows "sq_dev xs = (\<Sum>x\<leftarrow>xs. x\<^sup>2) - (sum_list xs)\<^sup>2 / of_nat (length xs)"
proof -
  have n: "(of_nat (length xs) :: real) \<noteq> 0" using assms by simp
  show ?thesis
    unfolding sq_dev_def direct_mean_def sum_sq_shift by (rule sq_alg[OF n])
qed

lemma mean_snoc:
  assumes "xs \<noteq> []"
  shows "direct_mean xs + (x - direct_mean xs) / of_int (int (length xs) + 1) = direct_mean (xs @ [x])"
proof -
  define n where "n = (of_nat (length xs) :: real)"
  have n: "0 < n" using assms by (simp add: n_def)
  have l: "(of_int (int (length xs) + 1) :: real) = n + 1" by (simp add: n_def)
  have r: "direct_mean (xs @ [x]) = (sum_list xs + x) / (n + 1)"
    by (simp add: direct_mean_def n_def add.commute)
  have d: "direct_mean xs = sum_list xs / n"
    by (simp add: direct_mean_def n_def)
  show ?thesis
    unfolding l r d by (rule mean_alg[OF n])
qed

lemma sq_dev_snoc:
  assumes "xs \<noteq> []"
  shows "sq_dev xs + (x - direct_mean xs) * (x - direct_mean (xs @ [x])) = sq_dev (xs @ [x])"
proof -
  define n where "n = (of_nat (length xs) :: real)"
  define Q where "Q = (\<Sum>x\<leftarrow>xs. x\<^sup>2)"
  have n: "0 < n" using assms by (simp add: n_def)
  have a: "sq_dev (xs @ [x]) = (Q + x\<^sup>2) - (sum_list xs + x)\<^sup>2 / (n + 1)"
    by (simp add: sq_dev_alt n_def Q_def add.commute)
  have b: "sq_dev xs = Q - (sum_list xs)\<^sup>2 / n"
    using assms by (simp add: sq_dev_alt n_def Q_def)
  have c: "direct_mean (xs @ [x]) = (sum_list xs + x) / (n + 1)"
    by (simp add: direct_mean_def n_def add.commute)
  have d: "direct_mean xs = sum_list xs / n"
    by (simp add: direct_mean_def n_def)
  show ?thesis
    unfolding a b c d by (rule m2_alg[OF n])
qed

lemma as_float_num: "as_float v = Some r \<Longrightarrow> num_of v = Some r"
  by (cases v) (auto split: if_splits)

lemma welford_first:
  assumes "mean_x st = None" and "as_float vx = Some x" and "as_float vy = Some y"
  shows "\<exists>st'. welford st vx vy = Inr st' \<and> welford_inv st' [x] [y] \<and> count st' = count st"
  using assms by (simp add: welford_def welford_inv_def direct_mean_def sq_dev_def)

lemma welford_next:
  assumes "welford_inv st xs ys" and fx: "as_float vx = Some x" and fy: "as_float vy = Some y"
  shows "\<exists>st'. welford st vx vy = Inr st' \<and> welford_inv st' (xs @ [x]) (ys @ [y]) \<and> count st' = count st"
proof -
  from assms(1) have xs: "xs \<noteq> []" and ys: "ys \<noteq> []" and len: "length ys = length xs"
    and f: "mean_x st = Some (direct_mean xs)" "mean_y st = Some (direct_mean ys)"
           "priv_m2x st = Some (sq_dev xs)" "priv_m2y st = Some (sq_dev ys)"
           "priv_n st = Some (int (length xs))"
    by (auto simp: welford_inv_def)
  define n :: int where "n = int (length xs) + 1"
  define mx' where "mx' = direct_mean xs + (x - direct_mean xs) / of_int n"
  define my' where "my' = direct_mean ys + (y - direct_mean ys) / of_int n"
  define m2x' where "m2x' = sq_dev xs + (x - direct_mean xs) * (x - mx')"
  define m2y' where "m2y' = sq_dev ys + (y - direct_mean ys) * (y - my')"
  define st' where "st' = st\<lparr>mean_x := Some mx', mean_y := Some my',
       std_x := Some (sqrt (max (m2x' / of_int (max (n - 1) 1)) 1)),
       std_y := Some (sqrt (max (m2y' / of_int (max (n - 1) 1)) 1)),
       priv_m2x := Some m2x', priv_m2y := Some m2y', priv_n := Some n\<rparr>"
  have n0: "n \<noteq> 0" by (simp add: n_def)
  have w: "welford st vx vy = Inr st'"
    using f n0 fx fy
    by (simp add: welford_def Let_def st'_def n_def[symmetric] mx'_def my'_def m2x'_def m2y'_def)
  have mx: "mx' = direct_mean (xs @ [x])"
    unfolding mx'_def n_def by (rule mean_snoc[OF xs])
  have my: "my' = direct_mean (ys @ [y])"
    unfolding my'_def n_def len[symmetric] by (rule mean_snoc[OF ys])
  have m2x: "m2x' = sq_dev (xs @ [x])"
    unfolding m2x'_def mx by (rule sq_dev_snoc[OF xs])
  have m2y: "m2y' = sq_dev (ys @ [y])"
    unfolding m2y'_def my by (rule sq_dev_snoc[OF ys])
  have lx: "0 < length xs" using xs by simp
  have mm: "max (n - 1) 1 = int (length xs)"
    using xs by (cases xs) (simp_all add: n_def max_def)
  have d: "(of_int (max (n - 1) 1) :: real) = of_nat (length (xs @ [x]) - 1)"
    unfolding mm by simp
  have dy: "(of_int (max (n - 1) 1) :: real) = of_nat (length (ys @ [y]) - 1)"
    unfolding mm using len by simp
  have sx: "sqrt (max (m2x' / of_int (max (n - 1) 1)) 1) = direct_std (xs @ [x])"
    unfolding d m2x direct_std_def ..
  have sy: "sqrt (max (m2y' / of_int (max (n - 1) 1)) 1) = direct_std (ys @ [y])"
    unfolding dy m2y direct_std_def ..
  have st'_eq: "st' = st\<lparr>mean_x := Some (direct_mean (xs @ [x])), mean_y := Some (direct_mean (ys @ [y])),
       std_x := Some (direct_std (xs @ [x])), std_y := Some (direct_std (ys @ [y])),
       priv_m2x := Some (sq_dev (xs @ [x])), priv_m2y := Some (sq_dev (ys @ [y])),
       priv_n := Some n\<rparr>"
    unfolding st'_def sx sy unfolding mx my m2x m2y ..
  have "welford_inv st' (xs @ [x]) (ys @ [y])"
    using xs len unfolding welford_inv_def st'_eq
    by (simp add: n_def)
  moreover have "count st' = count st" by (simp add: st'_def)
  ultimately show ?thesis using w by blast
qed

lemma num_truthy: "num_of v = Some r \<Longrightarrow> r \<noteq> 0 \<Longrightarrow> truthy v"
  by (cases v) (auto split: if_splits)

lemma welford_inv_count [simp]: "welford_inv (st\<lparr>count := c\<rparr>) xs ys = welford_inv st xs ys"
  by (simp add: welford_inv_def)

lemma welford_inv_scroll [simp]: "welford_inv (update_scroll b ar st) xs ys = welford_inv st xs ys"
  by (simp add: welford_inv_def update_scroll_def Let_def)

lemma count_update_scroll [simp]: "count (update_scroll b ar st) = count st"
  by (simp add: update_scroll_def Let_def)

lemma update_stats_sample:
  assumes s: "s \<in> CoordActions"
    and x: "num_of (dget ar ''x'') = Some x" "x \<noteq> 0"
    and y: "num_of (dget ar ''y'') = Some y" "y \<noteq> 0"
    and w: "welford st (dget ar ''x'') (dget ar ''y'') = Inr st'"
  shows "\<exists>st''. update_stats (PStr s) (PDict ar) st = Inr st'' \<and> count st'' = count st' \<and>
           (\<forall>xs ys. welford_inv st'' xs ys = welford_inv st' xs ys)"
proof -
  have cx: "coord_x ar = dget ar ''x''"
    using num_truthy[OF x] by (simp add: coord_x_def py_or_def)
  have cy: "coord_y ar = dget ar ''y''"
    using num_truthy[OF y] by (simp add: coord_y_def py_or_def)
  have "update_coords ar st = Inr st'"
    using x y w by (simp add: update_coords_def cx cy)
  then show ?thesis using s
    by (simp add: update_stats_def is_coord_action_def)
qed

lemma fit_step_sample:
  assumes s: "s \<in> CoordActions"
    and xy: "step_xy s step = Some (x, y)" and nz: "x \<noteq> 0" "y \<noteq> 0"
    and inv: "kind_inv self s acc" and dd: "stats_default self"
  shows "\<exists>self'. fit_step self step = Inr self' \<and> kind_inv self' s (acc @ [(x, y)]) \<and>
           screen_w self' = screen_w self \<and> screen_h self' = screen_h self \<and> stats_default self'"
proof -
  from xy obtain sd ad ar where
    st: "step = PDict sd" "dget_or sd ''action'' (PDict []) = PDict ad"
        "dget ad ''name'' = PStr s" "dget_or ad ''args'' (PDict []) = PDict ar"
    and fx: "as_float (dget ar ''x'') = Some x" and fy: "as_float (dget ar ''y'') = Some y"
    by (auto simp: step_xy_def split: pyval.splits if_splits option.splits)
  note nx = as_float_num[OF fx] and ny = as_float_num[OF fy]
  have ne: "s \<noteq> []" using s by (auto simp: CoordActions_def)
  have si: "stats_item self (KStr s) =
      Some (case action_stats self (KStr s) of None \<Rightarrow> ActionStats0 | Some st \<Rightarrow> st)"
    using dd by (simp add: stats_item_def split: option.splits)
  let ?st = "(case action_stats self (KStr s) of None \<Rightarrow> ActionStats0 | Some st \<Rightarrow> st)"
  let ?st1 = "?st\<lparr>count := count ?st + 1\<rparr>"
  have "\<exists>st'. welford ?st1 (dget ar ''x'') (dget ar ''y'') = Inr st' \<and> welford_inv st' (map fst (acc @ [(x, y)])) (map snd (acc @ [(x, y)]))
           \<and> count st' = int (length (acc @ [(x, y)]))"
  proof (cases "acc = []")
    case True
    then have "action_stats self (KStr s) = None" using inv by (simp add: kind_inv_def)
    then have m: "mean_x ?st1 = None" and c: "count ?st1 = 1" by (simp_all add: ActionStats0_def)
    from welford_first[OF m fx fy] c True show ?thesis by auto
  next
    case False
    then obtain st0 where st0: "action_stats self (KStr s) = Some st0" "count st0 = int (length acc)"
        "welford_inv st0 (map fst acc) (map snd acc)"
      using inv by (auto simp: kind_inv_def)
    then have i: "welford_inv ?st1 (map fst acc) (map snd acc)" and c: "count ?st1 = int (length acc) + 1"
      by simp_all
    from welford_next[OF i fx fy] c show ?thesis by auto
  qed
  then obtain st' where w: "welford ?st1 (dget ar ''x'') (dget ar ''y'') = Inr st'"
    and wi: "welford_inv st' (map fst (acc @ [(x, y)])) (map snd (acc @ [(x, y)]))"
    and wc: "count st' = int (length (acc @ [(x, y)]))" by blast
  from update_stats_sample[OF s nx nz(1) ny nz(2) w] obtain st'' where
    u: "update_stats (PStr s) (PDict ar) ?st1 = Inr st''" and uc: "count st'' = count st'"
    and ui: "\<forall>xs ys. welford_inv st'' xs ys = welford_inv st' xs ys" by blast
  show ?thesis
    using st ne u uc ui wi wc si dd
    by (simp add: fit_step_def Let_def kind_inv_def)
qed

lemma fit_steps_samples:
  assumes s: "s \<in> CoordActions"
  shows "map (step_xy s) sts = map Some samples \<Longrightarrow> \<forall>(x, y) \<in> set samples. x \<noteq> 0 \<and> y \<noteq> 0 \<Longrightarrow>
         kind_inv self s acc \<Longrightarrow> stats_default self \<Longrightarrow>
         \<exists>self'. fit_steps self sts = Inr self' \<and> kind_inv self' s (acc @ samples) \<and>
           screen_w self' = screen_w self \<and> screen_h self' = screen_h self"
proof (induction sts arbitrary: self acc samples)
  case Nil
  then show ?case by simp
next
  case (Cons step sts)
  from Cons.prems(1) obtain x y rest where sm: "samples = (x, y) # rest"
    and xy: "step_xy s step = Some (x, y)" and r: "map (step_xy s) sts = map Some rest"
    by (cases samples) auto
  from Cons.prems(2) sm have nz: "x \<noteq> 0" "y \<noteq> 0" and rz: "\<forall>(x, y) \<in> set rest. x \<noteq> 0 \<and> y \<noteq> 0"
    by auto
  from fit_step_sample[OF s xy nz Cons.prems(3) Cons.prems(4)] obtain self1 where
    f: "fit_step self step = Inr self1" and i: "kind_inv self1 s (acc @ [(x, y)])"
    and sz: "screen_w self1 = screen_w self" "screen_h self1 = screen_h self"
    and dd: "stats_default self1" by blast
  from Cons.IH[OF r rz i dd] obtain self' where
    "fit_steps self1 sts = Inr self'" "kind_inv self' s ((acc @ [(x, y)]) @ rest)"
    "screen_w self' = screen_w self1" "screen_h self' = screen_h self1" by blast
  then show ?case using f sm sz by simp
qed

lemma fit_entries_docs:
  "fit_entries self (map (\<lambda>(eid, sts). EpisodeDir (Json (episode_doc eid sts))) eps)
     = fit_steps self (concat (map snd eps))"
proof (induction eps arbitrary: self)
  case Nil
  then show ?case by simp
next
  case (Cons e eps)
  obtain eid sts where e: "e = (eid, sts)" by (cases e)
  have app: "\<And>self b. fit_steps self (sts @ b) =
      (case fit_steps self sts of Inl err \<Rightarrow> Inl err | Inr s' \<Rightarrow> fit_steps s' b)"
    by (induction sts) (auto split: sum.splits)
  show ?case
    using Cons.IH by (simp add: e episode_doc_def fit_episode_def dget_or_def app split: sum.splits)
qed

lemma finalize_stats_many: "2 \<le> count st \<Longrightarrow> finalize_stats w h st = st"
  by (simp add: finalize_stats_def)

lemma step_xy_name: "step_xy s step = Some xy \<Longrightarrow> step_name step = Some (PStr s)"
  by (auto simp: step_xy_def step_name_def split: pyval.splits if_splits)

lemma key_of_str: "key_of v = Some (KStr s) \<Longrightarrow> v = PStr s"
  by (cases v) auto

lemma fit_step_other:
  assumes "fit_step self step = Inr self'" and "step_name step \<noteq> Some (PStr s)"
  shows "action_stats self' (KStr s) = action_stats self (KStr s) \<and>
         screen_w self' = screen_w self \<and> screen_h self' = screen_h self \<and>
         stats_default self' = stats_default self"
  using assms
  by (auto simp: fit_step_def step_name_def Let_def
           split: pyval.splits if_splits option.splits sum.splits dest: key_of_str)

lemma kind_inv_cong:
  "action_stats self' (KStr s) = action_stats self (KStr s) \<Longrightarrow> kind_inv self' s acc = kind_inv self s acc"
  by (simp add: kind_inv_def)

lemma fit_steps_kind:
  assumes s: "s \<in> CoordActions"
  shows "\<forall>step \<in> set sts. step_name step = Some (PStr s) \<longrightarrow>
            (\<exists>x y. step_xy s step = Some (x, y) \<and> x \<noteq> 0 \<and> y \<noteq> 0) \<Longrightarrow>
         kind_inv self s acc \<Longrightarrow> stats_default self \<Longrightarrow> fit_steps self sts = Inr self' \<Longrightarrow>
         kind_inv self' s (acc @ List.map_filter (step_xy s) sts) \<and>
           screen_w self' = screen_w self \<and> screen_h self' = screen_h self"
proof (induction sts arbitrary: self acc)
  case Nil
  then show ?case by (simp add: List.map_filter_simps)
next
  case (Cons step sts)
  from Cons.prems(4) obtain self1 where f1: "fit_step self step = Inr self1"
    and fr: "fit_steps self1 sts = Inr self'"
    by (auto split: sum.splits)
  have rest: "\<forall>step \<in> set sts. step_name step = Some (PStr s) \<longrightarrow>
            (\<exists>x y. step_xy s step = Some (x, y) \<and> x \<noteq> 0 \<and> y \<noteq> 0)"
    using Cons.prems(1) by simp
  show ?case
  proof (cases "step_name step = Some (PStr s)")
    case True
    with Cons.prems(1) obtain x y where xy: "step_xy s step = Some (x, y)" and nz: "x \<noteq> 0" "y \<noteq> 0"
      by auto
    from fit_step_sample[OF s xy nz Cons.prems(2) Cons.prems(3)] f1 have
      i: "kind_inv self1 s (acc @ [(x, y)])"
      and sz: "screen_w self1 = screen_w self" "screen_h self1 = screen_h self"
      and dd: "stats_default self1" by auto
    from Cons.IH[OF rest i dd fr] sz xy show ?thesis
      by (simp add: List.map_filter_simps)
  next
    case False
    then have none: "step_xy s step = None"
      using step_xy_name[of s step] by (cases "step_xy s step") auto
    from fit_step_other[OF f1 False] have
      a: "action_stats self1 (KStr s) = action_stats self (KStr s)"
      and sz: "screen_w self1 = screen_w self" "screen_h self1 = screen_h self"
      and dd: "stats_default self1" using Cons.prems(3) by auto
    have i: "kind_inv self1 s acc" using Cons.prems(2) kind_inv_cong[OF a] by simp
    from Cons.IH[OF rest i dd fr] sz none show ?thesis
      by (simp add: List.map_filter_simps)
  qed
qed

lemma map_filter_all:
  "\<forall>x \<in> set xs. f x \<noteq> None \<Longrightarrow> map f xs = map Some (List.map_filter f xs)"
  by (induction xs) (auto simp: List.map_filter_simps)

text \<open>
  Apart from what it accepts as a sample, the incremental update is right. Take a corpus
  of episode files, a coordinate kind \<open>s\<close>, and as samples the \<open>(x, y)\<close> of the steps
  of kind \<open>s\<close> in file order, where every such step has numbers other than 0 under
  \<open>x\<close> and \<open>y\<close>, and there are at least two; steps of other kinds may stand in
  between. Whenever the pass, run on a new prior, returns, the statistics of \<open>s\<close> hold
  the direct means of the samples and the square roots of their unbiased direct
  variances, floored at 1; and the pass does return when all steps are of kind \<open>s\<close>.
\<close>

lemma fit_welford_direct:
  assumes s: "s \<in> CoordActions"
    and sts: "sts = concat (map snd eps)"
    and ok: "\<forall>step \<in> set sts. step_name step = Some (PStr s) \<longrightarrow>
               (\<exists>x y. step_xy s step = Some (x, y) \<and> x \<noteq> 0 \<and> y \<noteq> 0)"
    and samples: "samples = List.map_filter (step_xy s) sts"
    and n: "2 \<le> length samples"
  shows "(\<forall>p. fit_from_episodes (BehaviorPrior_init (w, h))
               (Directory (map (\<lambda>(eid, sts). EpisodeDir (Json (episode_doc eid sts))) eps)) = Inr p \<longrightarrow>
            (\<exists>st. action_stats p (KStr s) = Some st \<and>
               mean_x st = Some (direct_mean (map fst samples)) \<and>
               mean_y st = Some (direct_mean (map snd samples)) \<and>
               std_x st = Some (direct_std (map fst samples)) \<and>
               std_y st = Some (direct_std (map snd samples)))) \<and>
         ((\<forall>step \<in> set sts. step_name step = Some (PStr s)) \<longrightarrow>
            (\<exists>p. fit_from_episodes (BehaviorPrior_init (w, h))
               (Directory (map (\<lambda>(eid, sts). EpisodeDir (Json (episode_doc eid sts))) eps)) = Inr p))"
proof -
  let ?fit = "fit_from_episodes (BehaviorPrior_init (w, h))
               (Directory (map (\<lambda>(eid, sts). EpisodeDir (Json (episode_doc eid sts))) eps))"
  have i0: "kind_inv (BehaviorPrior_init (w, h)) s []"
    by (simp add: kind_inv_def BehaviorPrior_init_def)
  have d0: "stats_default (BehaviorPrior_init (w, h))"
    by (simp add: BehaviorPrior_init_def)
  have ne: "samples \<noteq> []" using n by auto
  have l1: "length samples \<noteq> 1" using n by simp
  have unf: "?fit = (case fit_steps (BehaviorPrior_init (w, h)) sts of
                       Inl e \<Rightarrow> Inl e | Inr self' \<Rightarrow> Inr (finalize self'))"
    by (simp add: fit_from_episodes_def fit_entries_docs sts)
  have part1: "\<exists>st. action_stats p (KStr s) = Some st \<and>
               mean_x st = Some (direct_mean (map fst samples)) \<and>
               mean_y st = Some (direct_mean (map snd samples)) \<and>
               std_x st = Some (direct_std (map fst samples)) \<and>
               std_y st = Some (direct_std (map snd samples))" if p: "?fit = Inr p" for p
  proof -
    from p unf obtain self' where f: "fit_steps (BehaviorPrior_init (w, h)) sts = Inr self'"
      and pf: "p = finalize self'" by (auto split: sum.splits)
    from fit_steps_kind[OF s ok i0 d0 f] have i: "kind_inv self' s samples"
      by (simp add: samples)
    from i ne obtain st where st: "action_stats self' (KStr s) = Some st"
      "count st = int (length samples)" "welford_inv st (map fst samples) (map snd samples)"
      by (auto simp: kind_inv_def)
    have c2: "2 \<le> count st" using st(2) n by simp
    have fin: "action_stats (finalize self') (KStr s) = Some st"
      using st(1) finalize_stats_many[OF c2] by (simp add: finalize_def)
    show ?thesis using pf fin st(3) l1 by (simp add: welford_inv_def)
  qed
  have part2: "\<exists>p. ?fit = Inr p" if all: "\<forall>step \<in> set sts. step_name step = Some (PStr s)"
  proof -
    have "\<forall>step \<in> set sts. step_xy s step \<noteq> None" using all ok by auto
    from map_filter_all[OF this] have m: "map (step_xy s) sts = map Some samples"
      by (simp add: samples)
    have nz: "\<forall>(x, y) \<in> set samples. x \<noteq> 0 \<and> y \<noteq> 0"
      using ok all by (auto simp: samples List.map_filter_def)
    from fit_steps_samples[OF s m nz i0 d0] show ?thesis using unf by auto
  qed
  show ?thesis using part1 part2 by blast
qed

text \<open>
  C4, the code at the failing input: three \<^verbatim>\<open>click_at\<close> samples \<open>(0, 5)\<close>,
  \<open>(10, 5)\<close>, \<open>(20, 5)\<close> in one episode, fitted on a new prior. The first sample
  has its \<open>x\<close> present, and 0 is a valid column of the screen, yet it is dropped because
  \<^verbatim>\<open>args.get("x") or args.get("destination_x")\<close> takes 0 for absent: \<open>mean_x\<close> is 15
  where the direct mean of 0, 10, 20 is 10.
\<close>

theorem fit_zero_coordinate_dropped:
  "\<exists>p st.
     fit_from_episodes (BehaviorPrior_init (1440, 900))
       (Directory [EpisodeDir (Json (episode_doc ''e1''
          [click_step 1 (PInt 0) (PInt 5), click_step 2 (PInt 10) (PInt 5),
           click_step 3 (PInt 20) (PInt 5)]))]) = Inr p \<and>
     action_stats p (KStr ''click_at'') = Some st \<and> count st = 3 \<and>
     mean_x st = Some 15 \<and> direct_mean [0, 10, 20] = 10 \<and>
     mean_x st \<noteq> Some (direct_mean [0, 10, 20])"
  by (simp add: fit_from_episodes_def episode_doc_def click_step_def fit_episode_def dget_or_def
        fit_step_def dget_def update_stats_def is_coord_action_def
        is_scroll_action_def CoordActions_def update_coords_def coord_x_def coord_y_def
        py_or_def welford_def stats_item_def float_range_def ActionStats0_def BehaviorPrior_init_def finalize_def
        finalize_stats_def Let_def direct_mean_def)

section \<open>A zero coordinate in the fitting pass\<close>

lemma coord_x_number: "num_of (dget ar ''x'') = Some r \<Longrightarrow> r \<noteq> 0 \<Longrightarrow> coord_x ar = dget ar ''x''"
  using num_truthy[of "dget ar ''x''" r] by (simp add: coord_x_def py_or_def)

lemma coord_y_number: "num_of (dget ar ''y'') = Some r \<Longrightarrow> r \<noteq> 0 \<Longrightarrow> coord_y ar = dget ar ''y''"
  using num_truthy[of "dget ar ''y''" r] by (simp add: coord_y_def py_or_def)

lemma coord_part_scroll [simp]: "coord_part (update_scroll b ar st) = coord_part st"
  by (simp add: coord_part_def update_scroll_coords)

lemma fit_step_feeds:
  assumes kind: "s \<in> CoordActions"
    and step: "step = PDict sd" "dget_or sd ''action'' (PDict []) = PDict ad"
              "dget ad ''name'' = PStr s" "dget_or ad ''args'' (PDict []) = PDict ar"
    and prior: "stats_item self (KStr s) = Some st"
    and nx: "num_of (coord_x ar) \<noteq> None" and ny: "num_of (coord_y ar) \<noteq> None"
  shows "feeds self step s st (coord_x ar) (coord_y ar)"
proof -
  have ne: "s \<noteq> []" using kind by (auto simp: CoordActions_def)
  let ?st1 = "st\<lparr>count := count st + 1\<rparr>"
  have uc: "update_coords ar ?st1 = welford ?st1 (coord_x ar) (coord_y ar)"
    using nx ny by (auto simp: update_coords_def)
  show ?thesis
  proof (cases "welford ?st1 (coord_x ar) (coord_y ar)")
    case (Inl e)
    then have "update_stats (PStr s) (PDict ar) ?st1 = Inl e"
      using kind uc by (simp add: update_stats_def is_coord_action_def)
    then show ?thesis
      using step ne prior Inl by (simp add: feeds_def fit_step_def Let_def)
  next
    case (Inr st2)
    have c2: "count st2 = count st + 1"
      using Inr
      by (auto simp: welford_def Let_def split: option.splits if_splits)
    have "\<exists>st3. update_stats (PStr s) (PDict ar) ?st1 = Inr st3 \<and> count st3 = count st + 1 \<and>
            coord_part st3 = coord_part st2"
      using kind uc Inr c2
      by (auto simp: update_stats_def is_coord_action_def)
    then show ?thesis
      using step ne prior Inr by (auto simp: feeds_def fit_step_def Let_def)
  qed
qed

text \<open>
  C9. In the fitting pass a coordinate argument equal to 0 counts as absent. Take a step
  of a coordinate kind, on a prior whose statistics are those of a new prior or already
  hold the kind. When \<open>x\<close> is 0, what \<open>destination_x\<close> holds is used in its place (and
  the same for \<open>y\<close> and \<open>destination_y\<close>): where that is a number, the step feeds it,
  with the other coordinate, into the mean and deviation of the kind, so that the first
  sample of a kind leaves it as the mean; and where it is absent or not a number, the
  step is processed without error, the count of the kind in \<^verbatim>\<open>action_counts\<close> and in
  its statistics grows by one, and the mean, deviation and running sums of the kind stay
  as they were.
\<close>

theorem fit_step_zero_coordinate:
  assumes kind: "s \<in> CoordActions"
    and step: "step = PDict sd" "dget_or sd ''action'' (PDict []) = PDict ad"
              "dget ad ''name'' = PStr s" "dget_or ad ''args'' (PDict []) = PDict ar"
    and prior: "stats_item self (KStr s) = Some st"
  shows "((dget ar ''x'' \<in> {PInt 0, PFloat 0} \<and> num_of (dget ar ''destination_x'') = None) \<or>
          (dget ar ''y'' \<in> {PInt 0, PFloat 0} \<and> num_of (dget ar ''destination_y'') = None) \<longrightarrow>
            (\<exists>self' st'.
               fit_step self step = Inr self' \<and>
               action_counts self' (KStr s) =
                 Some ((case action_counts self (KStr s) of None \<Rightarrow> 0 | Some c \<Rightarrow> c) + 1) \<and>
               action_stats self' (KStr s) = Some st' \<and>
               count st' = count st + 1 \<and> coord_part st' = coord_part st)) \<and>
         (dget ar ''x'' \<in> {PInt 0, PFloat 0} \<and> num_of (dget ar ''destination_x'') \<noteq> None \<and>
          num_of (dget ar ''y'') = Some ry \<and> ry \<noteq> 0 \<longrightarrow>
            feeds self step s st (dget ar ''destination_x'') (dget ar ''y'')) \<and>
         (dget ar ''y'' \<in> {PInt 0, PFloat 0} \<and> num_of (dget ar ''destination_y'') \<noteq> None \<and>
          num_of (dget ar ''x'') = Some rx \<and> rx \<noteq> 0 \<longrightarrow>
            feeds self step s st (dget ar ''x'') (dget ar ''destination_y'')) \<and>
         (dget ar ''x'' \<in> {PInt 0, PFloat 0} \<and> num_of (dget ar ''destination_x'') \<noteq> None \<and>
          dget ar ''y'' \<in> {PInt 0, PFloat 0} \<and> num_of (dget ar ''destination_y'') \<noteq> None \<longrightarrow>
            feeds self step s st (dget ar ''destination_x'') (dget ar ''destination_y'')) \<and>
         (mean_x st = None \<and> dget ar ''x'' \<in> {PInt 0, PFloat 0} \<and>
          as_float (dget ar ''destination_x'') = Some dx \<and>
          as_float (dget ar ''y'') = Some ry \<and> ry \<noteq> 0 \<longrightarrow>
            (\<exists>self' st'. fit_step self step = Inr self' \<and>
               action_stats self' (KStr s) = Some st' \<and>
               mean_x st' = Some dx \<and> mean_y st' = Some ry)) \<and>
         (mean_x st = None \<and> dget ar ''y'' \<in> {PInt 0, PFloat 0} \<and>
          as_float (dget ar ''destination_y'') = Some dy \<and>
          as_float (dget ar ''x'') = Some rx \<and> rx \<noteq> 0 \<longrightarrow>
            (\<exists>self' st'. fit_step self step = Inr self' \<and>
               action_stats self' (KStr s) = Some st' \<and>
               mean_x st' = Some rx \<and> mean_y st' = Some dy))"
proof -
  have ne: "s \<noteq> []" using kind by (auto simp: CoordActions_def)
  note feed = fit_step_feeds[OF kind step prior]
  let ?st1 = "st\<lparr>count := count st + 1\<rparr>"
  have skip: "\<exists>self' st'.
               fit_step self step = Inr self' \<and>
               action_counts self' (KStr s) =
                 Some ((case action_counts self (KStr s) of None \<Rightarrow> 0 | Some c \<Rightarrow> c) + 1) \<and>
               action_stats self' (KStr s) = Some st' \<and>
               count st' = count st + 1 \<and> coord_part st' = coord_part st"
    if z: "(dget ar ''x'' \<in> {PInt 0, PFloat 0} \<and> num_of (dget ar ''destination_x'') = None) \<or>
           (dget ar ''y'' \<in> {PInt 0, PFloat 0} \<and> num_of (dget ar ''destination_y'') = None)"
  proof -
    have "num_of (coord_x ar) = None \<or> num_of (coord_y ar) = None"
      using z coord_x_zero[of ar] coord_y_zero[of ar] by auto
    then have uc: "update_coords ar ?st1 = Inr ?st1" by (rule update_coords_skip)
    have "\<exists>st2. update_stats (PStr s) (PDict ar) ?st1 = Inr st2 \<and> count st2 = count st + 1
             \<and> coord_part st2 = coord_part st"
      using kind uc
      by (auto simp: update_stats_def is_coord_action_def coord_part_def update_scroll_coords)
    then show ?thesis
      using step ne prior by (auto simp: fit_step_def Let_def)
  qed
  have fx: "feeds self step s st (dget ar ''destination_x'') (dget ar ''y'')"
    if "dget ar ''x'' \<in> {PInt 0, PFloat 0}" "num_of (dget ar ''destination_x'') \<noteq> None"
       "num_of (dget ar ''y'') = Some r" "r \<noteq> 0" for r
    using feed that coord_x_zero[of ar] coord_y_number[of ar r] by simp
  have fy: "feeds self step s st (dget ar ''x'') (dget ar ''destination_y'')"
    if "dget ar ''y'' \<in> {PInt 0, PFloat 0}" "num_of (dget ar ''destination_y'') \<noteq> None"
       "num_of (dget ar ''x'') = Some r" "r \<noteq> 0" for r
    using feed that coord_y_zero[of ar] coord_x_number[of ar r] by simp
  have fxy: "feeds self step s st (dget ar ''destination_x'') (dget ar ''destination_y'')"
    if "dget ar ''x'' \<in> {PInt 0, PFloat 0}" "num_of (dget ar ''destination_x'') \<noteq> None"
       "dget ar ''y'' \<in> {PInt 0, PFloat 0}" "num_of (dget ar ''destination_y'') \<noteq> None"
    using feed that coord_x_zero[of ar] coord_y_zero[of ar] by simp
  have first: "\<exists>self' st'. fit_step self step = Inr self' \<and>
               action_stats self' (KStr s) = Some st' \<and> mean_x st' = Some a \<and> mean_y st' = Some b"
    if "feeds self step s st vx vy" "mean_x st = None" "as_float vx = Some a" "as_float vy = Some b"
    for vx vy a b
    using that by (auto simp: feeds_def welford_def coord_part_def)
  have firstx: "\<exists>self' st'. fit_step self step = Inr self' \<and>
               action_stats self' (KStr s) = Some st' \<and> mean_x st' = Some dx \<and> mean_y st' = Some ry"
    if "mean_x st = None" "dget ar ''x'' \<in> {PInt 0, PFloat 0}"
       "as_float (dget ar ''destination_x'') = Some dx" "as_float (dget ar ''y'') = Some ry" "ry \<noteq> 0"
    using first[OF fx[OF that(2) _ as_float_num[OF that(4)] that(5)] that(1) that(3) that(4)]
          as_float_num[OF that(3)] by simp
  have firsty: "\<exists>self' st'. fit_step self step = Inr self' \<and>
               action_stats self' (KStr s) = Some st' \<and> mean_x st' = Some rx \<and> mean_y st' = Some dy"
    if "mean_x st = None" "dget ar ''y'' \<in> {PInt 0, PFloat 0}"
       "as_float (dget ar ''destination_y'') = Some dy" "as_float (dget ar ''x'') = Some rx" "rx \<noteq> 0"
    using first[OF fy[OF that(2) _ as_float_num[OF that(4)] that(5)] that(1) that(4) that(3)]
          as_float_num[OF that(3)] by simp
  show ?thesis
    using skip fx fy fxy firstx firsty by blast
qed

text \<open>
  C9, witness: on a new prior, a \<^verbatim>\<open>drag_and_drop\<close> step with \<open>x = 0\<close>,
  \<open>destination_x = 300\<close> and \<open>y = 40\<close> leaves the mean \<open>(300, 40)\<close>; and after one
  \<^verbatim>\<open>click_at\<close> sample at \<open>(20, 20)\<close>, a \<^verbatim>\<open>click_at\<close> step at \<open>x = 0\<close>, \<open>y = 50\<close>
  with no \<open>destination_x\<close> raises the count to 2 and leaves the mean at \<open>(20, 20)\<close>.
\<close>

theorem fit_step_zero_coordinate_witness:
  "(\<exists>self' st'.
      fit_step demo_prior (drag_step 1 (PInt 0) (PInt 40) (PInt 300) (PInt 80)) = Inr self' \<and>
      action_stats self' (KStr ''drag_and_drop'') = Some st' \<and>
      mean_x st' = Some 300 \<and> mean_y st' = Some 40) \<and>
   (\<exists>self' st'.
      fit_step one_sample_prior (click_step 2 (PInt 0) (PInt 50)) = Inr self' \<and>
      action_counts self' (KStr ''click_at'') = Some 2 \<and>
      action_stats self' (KStr ''click_at'') = Some st' \<and> count st' = 2 \<and>
      mean_x st' = Some 20 \<and> mean_y st' = Some 20 \<and> priv_n st' = Some 1)"
proof -
  have a: "\<exists>self' st'.
      fit_step demo_prior (drag_step 1 (PInt 0) (PInt 40) (PInt 300) (PInt 80)) = Inr self' \<and>
      action_stats self' (KStr ''drag_and_drop'') = Some st' \<and>
      mean_x st' = Some 300 \<and> mean_y st' = Some 40"
    using fit_step_zero_coordinate[of "''drag_and_drop''"
          "drag_step 1 (PInt 0) (PInt 40) (PInt 300) (PInt 80)"
          "[(''step_index'', PInt 1),
            (''action'', PDict [(''name'', PStr ''drag_and_drop''),
               (''args'', PDict [(''x'', PInt 0), (''y'', PInt 40),
                                 (''destination_x'', PInt 300), (''destination_y'', PInt 80)])]),
            (''meta'', PDict [])]"
          "[(''name'', PStr ''drag_and_drop''),
            (''args'', PDict [(''x'', PInt 0), (''y'', PInt 40),
                              (''destination_x'', PInt 300), (''destination_y'', PInt 80)])]"
          "[(''x'', PInt 0), (''y'', PInt 40), (''destination_x'', PInt 300), (''destination_y'', PInt 80)]"
          demo_prior ActionStats0 40 300]
    by (simp add: CoordActions_def drag_step_def dget_or_def dget_def demo_prior_def
          BehaviorPrior_init_def stats_item_def ActionStats0_def float_range_def)
  have b: "\<exists>self' st'.
      fit_step one_sample_prior (click_step 2 (PInt 0) (PInt 50)) = Inr self' \<and>
      action_counts self' (KStr ''click_at'') = Some 2 \<and>
      action_stats self' (KStr ''click_at'') = Some st' \<and> count st' = 2 \<and>
      mean_x st' = Some 20 \<and> mean_y st' = Some 20 \<and> priv_n st' = Some 1"
    using fit_step_zero_coordinate[of "''click_at''" "click_step 2 (PInt 0) (PInt 50)"
          "[(''step_index'', PInt 2),
            (''action'', PDict [(''name'', PStr ''click_at''), (''args'', PDict [(''x'', PInt 0), (''y'', PInt 50)])]),
            (''meta'', PDict [])]"
          "[(''name'', PStr ''click_at''), (''args'', PDict [(''x'', PInt 0), (''y'', PInt 50)])]"
          "[(''x'', PInt 0), (''y'', PInt 50)]" one_sample_prior
          "\<lparr>count = 1, mean_x = Some 20, mean_y = Some 20, std_x = Some 0, std_y = Some 0,
            direction_counts = None, magnitudes = None,
            priv_m2x = Some 0, priv_m2y = Some 0, priv_n = Some 1\<rparr>"]
    by (auto simp: CoordActions_def click_step_def dget_or_def dget_def one_sample_prior_def
          stats_item_def coord_part_def)
  show ?thesis using a b by blast
qed

section \<open>Saving and loading a prior\<close>

lemma from_dict_to_dict:
  "from_dict (to_dict st) =
     st\<lparr>direction_counts := Some (case direction_counts st of None \<Rightarrow> [] | Some c \<Rightarrow> c),
        magnitudes := Some (case magnitudes st of None \<Rightarrow> [] | Some m \<Rightarrow> m),
        priv_m2x := None, priv_m2y := None, priv_n := None\<rparr>"
  by (simp add: from_dict_def to_dict_def)

lemma load_save:
  "load path (save self path fs) =
     Inr (self\<lparr>action_stats := (\<lambda>k. map_option (\<lambda>st. from_dict (to_dict st)) (action_stats self k)),
               stats_default := False\<rparr>)"
  by (simp add: load_def save_def snapshot_def option.map_comp comp_def)

text \<open>
  C6, as amended. For a prior whose keys are strings, \<^verbatim>\<open>load\<close> after \<^verbatim>\<open>save\<close> on the
  same path returns a prior with the same screen size, the same \<^verbatim>\<open>action_counts\<close> and
  statistics for the same kinds; for each kind \<open>count\<close>, \<open>mean_x\<close>, \<open>mean_y\<close>,
  \<open>std_x\<close> and \<open>std_y\<close> are those of the original, and \<open>direction_counts\<close> and
  \<open>magnitudes\<close> hold the original's entries, an unset one being read back as empty.
\<close>

theorem load_save_roundtrip:
  assumes "dom (action_counts self) \<subseteq> range KStr" and "dom (action_stats self) \<subseteq> range KStr"
  shows "\<exists>q. load path (save self path fs) = Inr q \<and>
           screen_w q = screen_w self \<and> screen_h q = screen_h self \<and>
           action_counts q = action_counts self \<and>
           dom (action_stats q) = dom (action_stats self) \<and>
           (\<forall>k st. action_stats self k = Some st \<longrightarrow>
              (\<exists>st'. action_stats q k = Some st' \<and>
                 count st' = count st \<and> mean_x st' = mean_x st \<and> mean_y st' = mean_y st \<and>
                 std_x st' = std_x st \<and> std_y st' = std_y st \<and>
                 direction_counts st' = Some (case direction_counts st of None \<Rightarrow> [] | Some c \<Rightarrow> c) \<and>
                 magnitudes st' = Some (case magnitudes st of None \<Rightarrow> [] | Some m \<Rightarrow> m)))"
  unfolding load_save
  by (auto simp: from_dict_to_dict dom_def)

text \<open>
  C6, witness: the prior with one \<^verbatim>\<open>click_at\<close> sample comes back with its count and
  mean, and with an empty counter of directions.
\<close>

theorem load_save_roundtrip_witness:
  "\<exists>q st'. load ''ckpt.json'' (save one_sample_prior ''ckpt.json'' Map.empty) = Inr q \<and>
     screen_w q = 1440 \<and> screen_h q = 900 \<and>
     action_counts q (KStr ''click_at'') = Some 1 \<and>
     action_stats q (KStr ''click_at'') = Some st' \<and>
     count st' = 1 \<and> mean_x st' = Some 20 \<and> std_x st' = Some 0 \<and>
     direction_counts st' = Some []"
proof -
  have d1: "dom (action_counts one_sample_prior) \<subseteq> range KStr"
    and d2: "dom (action_stats one_sample_prior) \<subseteq> range KStr"
    by (simp_all add: one_sample_prior_def)
  have st: "action_stats one_sample_prior (KStr ''click_at'') =
      Some \<lparr>count = 1, mean_x = Some 20, mean_y = Some 20, std_x = Some 0, std_y = Some 0,
          direction_counts = None, magnitudes = None,
          priv_m2x = Some 0, priv_m2y = Some 0, priv_n = Some 1\<rparr>"
    by (simp add: one_sample_prior_def)
  from load_save_roundtrip[OF d1 d2, of "''ckpt.json''" Map.empty] obtain q where
    q: "load ''ckpt.json'' (save one_sample_prior ''ckpt.json'' Map.empty) = Inr q"
       "screen_w q = screen_w one_sample_prior" "screen_h q = screen_h one_sample_prior"
       "action_counts q = action_counts one_sample_prior"
    and a: "\<And>k st. action_stats one_sample_prior k = Some st \<Longrightarrow>
              (\<exists>st'. action_stats q k = Some st' \<and>
                 count st' = count st \<and> mean_x st' = mean_x st \<and> mean_y st' = mean_y st \<and>
                 std_x st' = std_x st \<and> std_y st' = std_y st \<and>
                 direction_counts st' = Some (case direction_counts st of None \<Rightarrow> [] | Some c \<Rightarrow> c) \<and>
                 magnitudes st' = Some (case magnitudes st of None \<Rightarrow> [] | Some m \<Rightarrow> m))"
    by blast
  from a[OF st] obtain st' where
    "action_stats q (KStr ''click_at'') = Some st'" "count st' = 1" "mean_x st' = Some 20"
    "std_x st' = Some 0" "direction_counts st' = Some []"
    by auto
  then show ?thesis using q by (auto simp: one_sample_prior_def)
qed

text \<open>
  C6, counterexample to the claim as stated (identical contents for every prior): the
  statistics of \<^verbatim>\<open>click_at\<close> in the prior with one sample have no counter of directions
  and no list of magnitudes (\<^verbatim>\<open>None\<close>, as the fitting pass leaves a kind that is not a
  scroll); read back they have an empty counter and an empty list, so the statistics
  differ from the original's.
\<close>

theorem load_save_not_identical:
  "\<exists>q st st'. load ''ckpt.json'' (save one_sample_prior ''ckpt.json'' Map.empty) = Inr q \<and>
     action_stats one_sample_prior (KStr ''click_at'') = Some st \<and>
     action_stats q (KStr ''click_at'') = Some st' \<and>
     direction_counts st = None \<and> direction_counts st' = Some [] \<and>
     magnitudes st = None \<and> magnitudes st' = Some [] \<and>
     action_stats q \<noteq> action_stats one_sample_prior"
proof -
  have "(\<lambda>k. map_option (\<lambda>st. from_dict (to_dict st)) (action_stats one_sample_prior k)) (KStr ''click_at'')
        \<noteq> action_stats one_sample_prior (KStr ''click_at'')"
    by (simp add: one_sample_prior_def from_dict_to_dict)
  then have "(\<lambda>k. map_option (\<lambda>st. from_dict (to_dict st)) (action_stats one_sample_prior k))
        \<noteq> action_stats one_sample_prior"
    by metis
  then show ?thesis
    unfolding load_save by (simp add: one_sample_prior_def from_dict_to_dict)
qed


section \<open>The collector: what a guarded step records\<close>

lemma upto_1_2: "[1..2] = [1, (2::int)]"
  by (simp add: upto_rec1)

lemma pad6_small: "pad6 0 = ''000000''" "pad6 1 = ''000001''" "pad6 2 = ''000002''"
  by (simp_all add: pad6_def digits.simps eval_nat_numeral)

text \<open>
  C1, the code at the failing input: whitelist \<open>["example.com"]\<close>, two steps. Step 1
  starts on \<open>example.com\<close>, samples \<^verbatim>\<open>click_at\<close>, and the click leads to
  \<open>evil.com\<close>. Step 2 starts on \<open>evil.com\<close>, which no whitelisted suffix matches, so
  the guard navigates back to the initial URL; the step is recorded with the
  \<^verbatim>\<open>click_at\<close> of step 1, not with \<^verbatim>\<open>navigate\<close>, because \<^verbatim>\<open>action\<close> is by then
  a local of the function.
\<close>

theorem stale_action_on_guard_step:
  "\<exists>ep. collect_episodes link_computer demo_netloc (\<lambda>epi. ''https://example.com/'')
          (\<lambda>s. \<lparr>normals = [], draws = [3, 5, 7]\<rparr>) guard_cfg demo_world = Inr [ep] \<and>
        map (\<lambda>s. (step_index s, url (obs s), name (action s), url (next_obs s))) (steps ep) =
          [(1, ''https://example.com/'', ''click_at'', ''https://evil.com/''),
           (2, ''https://evil.com/'', ''click_at'', ''https://example.com/'')] \<and>
        \<not> domain_allowed demo_netloc ''https://evil.com/'' (whitelist_domains guard_cfg)"
  by (simp add: collect_episodes_def run_episode_def episode_start_def collect_step_def then_do_def
        random_action_def execute_def dispatch_def item_def choice_def randint_def next_draw_def
        acts_def link_computer_def page_def guard_cfg_def demo_world_def demo_netloc_def
        domain_allowed_def endswith_def uuid4_def ts_ms_def save_screenshot_def
        save_next_screenshot_def pad6_small upto_1_2 Let_def)

section \<open>The collector: steps per episode and failed actions\<close>

lemma then_do_Inr: "then_do m f = Inr v \<longleftrightarrow> (\<exists>u. m = Inr u \<and> f u = Inr v)"
  by (cases m) (auto simp: then_do_def)

lemma collect_step_appends:
  assumes "collect_step computer netloc cfg ep_dir t c = Inr c'"
  shows "\<exists>s. c_steps c' = c_steps c @ [s] \<and> step_index s = t \<and> obs s = c_obs c"
  using assms
  by (auto simp: collect_step_def then_do_Inr Let_def case_prod_beta split: if_splits option.splits)

lemma collect_steps_indices:
  "collect_steps computer netloc cfg ep_dir ts c = Inr c' \<Longrightarrow>
   map step_index (c_steps c') = map step_index (c_steps c) @ ts"
proof (induction ts arbitrary: c)
  case Nil
  then show ?case by simp
next
  case (Cons t ts)
  from Cons.prems obtain c1 where s: "collect_step computer netloc cfg ep_dir t c = Inr c1"
    and r: "collect_steps computer netloc cfg ep_dir ts c1 = Inr c'"
    by (auto simp: then_do_Inr)
  from collect_step_appends[OF s] Cons.IH[OF r] show ?case by auto
qed

lemma episode_start_steps:
  "episode_start computer cfg e0 w act = Inr (eid, ep_dir, c0) \<Longrightarrow> c_steps c0 = []"
  by (auto simp: episode_start_def Let_def case_prod_beta split: option.splits)

lemma run_episode_indices:
  assumes "run_episode computer netloc cfg e0 w act = Inr (ep, w', act')"
  shows "map step_index (steps ep) = [1..max_steps_per_episode cfg]"
proof -
  from assms obtain eid ep_dir c0 c where
    s: "episode_start computer cfg e0 w act = Inr (eid, ep_dir, c0)"
    and r: "collect_steps computer netloc cfg ep_dir [1..max_steps_per_episode cfg] c0 = Inr c"
    and e: "ep = \<lparr>episode_id = eid, steps = c_steps c\<rparr>"
    by (auto simp: run_episode_def then_do_Inr)
  from collect_steps_indices[OF r] episode_start_steps[OF s] e show ?thesis by simp
qed

lemma collect_loop_episodes:
  "collect_loop computer netloc env_factory cfg idx (acc, w, act) = Inr (eps, w', act') \<Longrightarrow>
   \<exists>new. eps = acc @ new \<and> length new = length idx \<and>
     (\<forall>ep \<in> set new. map step_index (steps ep) = [1..max_steps_per_episode cfg])"
proof (induction idx arbitrary: acc w act)
  case Nil
  then show ?case by simp
next
  case (Cons epi rest)
  from Cons.prems obtain ep w1 act1 where
    e: "run_episode computer netloc cfg (env_factory epi) w act = Inr (ep, w1, act1)"
    and r: "collect_loop computer netloc env_factory cfg rest (acc @ [ep], w1, act1) = Inr (eps, w', act')"
    by (auto simp: then_do_Inr)
  from Cons.IH[OF r] obtain new where n: "eps = (acc @ [ep]) @ new" "length new = length rest"
    "\<forall>ep \<in> set new. map step_index (steps ep) = [1..max_steps_per_episode cfg]" by blast
  have "eps = acc @ (ep # new)" using n(1) by simp
  moreover have "length (ep # new) = length (epi # rest)" using n(2) by simp
  moreover have "\<forall>ep \<in> set (ep # new). map step_index (steps ep) = [1..max_steps_per_episode cfg]"
    using n(3) run_episode_indices[OF e] by simp
  ultimately show ?case by blast
qed

lemma collect_episodes_indices:
  assumes "collect_episodes computer netloc env_factory seeded cfg w0 = Inr eps"
  shows "length eps = nat (episodes cfg) \<and>
         (\<forall>ep \<in> set eps. map step_index (steps ep) = [1..max_steps_per_episode cfg])"
proof -
  from assms obtain w' act' where
    "collect_loop computer netloc env_factory cfg [0..<nat (episodes cfg)]
          ([], w0\<lparr>rng := seeded (seed cfg)\<rparr>, None) = Inr (eps, w', act')"
    by (auto simp: collect_episodes_def then_do_Inr)
  from collect_loop_episodes[OF this] show ?thesis by auto
qed

lemma choice_returns: "xs \<noteq> [] \<Longrightarrow> \<exists>v r'. choice xs r = Inr (v, r')"
  by (simp add: choice_def case_prod_beta)

lemma randint_returns: "a \<le> b \<Longrightarrow> \<exists>v r'. randint a b r = Inr (v, r')"
  by (simp add: randint_def case_prod_beta)

lemma random_action_returns:
  assumes "screen_size computer e \<noteq> None"
  shows "\<exists>a r'. random_action computer e r = Inr (a, r')"
proof -
  obtain nm r1 where c: "choice acts r = Inr (nm, r1)"
    using choice_returns[of acts r] by (auto simp: acts_def)
  obtain W H where sz: "screen_size computer e = Some (W, H)"
    using assms by auto
  obtain x r2 where x: "randint 10 (max 10 (W - 10)) r1 = Inr (x, r2)"
    using randint_returns[of 10 "max 10 (W - 10)" r1] by auto
  obtain y r3 where y: "randint 80 (max 80 (H - 10)) r2 = Inr (y, r3)"
    using randint_returns[of 80 "max 80 (H - 10)" r2] by auto
  obtain y' r3' where y': "randint 120 (max 120 (H - 10)) r2 = Inr (y', r3')"
    using randint_returns[of 120 "max 120 (H - 10)" r2] by auto
  obtain d r4 where d: "choice [''up'', ''down''] r3' = Inr (d, r4)"
    using choice_returns[of "[''up'', ''down'']" r3'] by auto
  obtain m r5 where m: "choice [200, 400, 800 :: int] r4 = Inr (m, r5)"
    using choice_returns[of "[200, 400, 800 :: int]" r4] by auto
  obtain d1 r2' where d1: "choice [''up'', ''down''] r1 = Inr (d1, r2')"
    using choice_returns[of "[''up'', ''down'']" r1] by auto
  show ?thesis
    using c sz x y y' d m d1 by (simp add: random_action_def then_do_def)
qed

lemma execute_returns:
  assumes "\<forall>e. fst (call computer CurrentState e) \<noteq> None"
  shows "\<exists>st e' w'. execute computer a e w = Inr (st, e', w')"
proof -
  obtain res e1 where d: "(case dispatch a of Inl err \<Rightarrow> (None, e) | Inr c \<Rightarrow> call computer c e) = (res, e1)"
    by (cases "(case dispatch a of Inl err \<Rightarrow> (None, e) | Inr c \<Rightarrow> call computer c e)") auto
  obtain st e2 where cs: "call computer CurrentState e1 = (Some st, e2)"
    using assms by (cases "call computer CurrentState e1") (auto dest: spec[of _ e1])
  show ?thesis using d cs by (cases res) (auto simp: execute_def)
qed

lemma collect_step_returns:
  assumes nav: "\<forall>e. fst (call computer (Navigate (PStr (initial_url cfg))) e) \<noteq> None"
    and cur: "\<forall>e. fst (call computer CurrentState e) \<noteq> None"
    and scr: "\<forall>e. screen_size computer e \<noteq> None"
  shows "\<exists>c'. collect_step computer netloc cfg ep_dir t c = Inr c'"
proof (cases "domain_allowed netloc (url (c_obs c)) (whitelist_domains cfg)")
  case False
  obtain st e' where "call computer (Navigate (PStr (initial_url cfg))) (c_env c) = (Some st, e')"
    using nav by (cases "call computer (Navigate (PStr (initial_url cfg))) (c_env c)")
                 (auto dest: spec[of _ "c_env c"])
  then show ?thesis using False
    by (simp add: collect_step_def then_do_def Let_def case_prod_beta)
next
  case True
  obtain a r' where ra: "random_action computer (c_env c) (rng (c_world c)) = Inr (a, r')"
    using random_action_returns[of computer "c_env c" "rng (c_world c)"] scr by auto
  obtain st e' w' where ex: "execute computer a (c_env c) ((c_world c)\<lparr>rng := r'\<rparr>) = Inr (st, e', w')"
    using execute_returns[OF cur] by blast
  show ?thesis using True ra ex
    by (simp add: collect_step_def then_do_def Let_def case_prod_beta)
qed

lemma collect_steps_returns:
  assumes nav: "\<forall>e. fst (call computer (Navigate (PStr (initial_url cfg))) e) \<noteq> None"
    and cur: "\<forall>e. fst (call computer CurrentState e) \<noteq> None"
    and scr: "\<forall>e. screen_size computer e \<noteq> None"
  shows "\<exists>c'. collect_steps computer netloc cfg ep_dir ts c = Inr c'"
proof (induction ts arbitrary: c)
  case Nil
  then show ?case by simp
next
  case (Cons t ts)
  obtain c1 where "collect_step computer netloc cfg ep_dir t c = Inr c1"
    using collect_step_returns[OF nav cur scr] by blast
  then show ?case using Cons.IH[of c1] by (simp add: then_do_def)
qed

lemma run_episode_returns:
  assumes opn: "\<forall>e. fst (call computer OpenWebBrowser e) \<noteq> None"
    and nav: "\<forall>e. fst (call computer (Navigate (PStr (initial_url cfg))) e) \<noteq> None"
    and cur: "\<forall>e. fst (call computer CurrentState e) \<noteq> None"
    and scr: "\<forall>e. screen_size computer e \<noteq> None"
  shows "\<exists>v. run_episode computer netloc cfg e0 w act = Inr v"
proof -
  obtain st e1 where o: "call computer OpenWebBrowser e0 = (Some st, e1)"
    using opn by (cases "call computer OpenWebBrowser e0") (auto dest: spec[of _ e0])
  obtain eid ep_dir c0 where s: "episode_start computer cfg e0 w act = Inr (eid, ep_dir, c0)"
    using o by (simp add: episode_start_def Let_def case_prod_beta)
  obtain c where "collect_steps computer netloc cfg ep_dir [1..max_steps_per_episode cfg] c0 = Inr c"
    using collect_steps_returns[OF nav cur scr] by blast
  then show ?thesis using s by (simp add: run_episode_def then_do_def)
qed

lemma collect_loop_returns:
  assumes opn: "\<forall>e. fst (call computer OpenWebBrowser e) \<noteq> None"
    and nav: "\<forall>e. fst (call computer (Navigate (PStr (initial_url cfg))) e) \<noteq> None"
    and cur: "\<forall>e. fst (call computer CurrentState e) \<noteq> None"
    and scr: "\<forall>e. screen_size computer e \<noteq> None"
  shows "\<exists>v. collect_loop computer netloc env_factory cfg idx acc = Inr v"
proof (induction idx arbitrary: acc)
  case Nil
  then show ?case by (cases acc) auto
next
  case (Cons epi rest)
  obtain eps w act where acc: "acc = (eps, w, act)" by (cases acc) auto
  obtain ep w1 act1 where "run_episode computer netloc cfg (env_factory epi) w act = Inr (ep, w1, act1)"
    using run_episode_returns[OF opn nav cur scr, of netloc "env_factory epi" w act] by auto
  then show ?case using Cons.IH[of "(eps @ [ep], w1, act1)"] by (simp add: acc then_do_def)
qed

lemma collect_episodes_returns:
  assumes opn: "\<forall>e. fst (call computer OpenWebBrowser e) \<noteq> None"
    and nav: "\<forall>e. fst (call computer (Navigate (PStr (initial_url cfg))) e) \<noteq> None"
    and cur: "\<forall>e. fst (call computer CurrentState e) \<noteq> None"
    and scr: "\<forall>e. screen_size computer e \<noteq> None"
  shows "\<exists>eps. collect_episodes computer netloc env_factory seeded cfg w0 = Inr eps"
proof -
  obtain v where "collect_loop computer netloc env_factory cfg [0..<nat (episodes cfg)]
          ([], w0\<lparr>rng := seeded (seed cfg)\<rparr>, None) = Inr v"
    using collect_loop_returns[OF opn nav cur scr] by blast
  then show ?thesis by (cases v) (simp add: collect_episodes_def then_do_def)
qed

lemma collect_step_failure:
  assumes ok: "domain_allowed netloc (url (c_obs c)) (whitelist_domains cfg)"
    and ra: "random_action computer (c_env c) (rng (c_world c)) = Inr (a, r')"
    and fl: "raises computer a (c_env c)"
    and cs: "call computer CurrentState (after_raise computer a (c_env c)) = (Some st, e'')"
  shows "\<exists>c' ts. collect_step computer netloc cfg ep_dir t c = Inr c' \<and>
           c_steps c' = c_steps c @
             [\<lparr>step_index = t, obs = c_obs c, action = a,
               next_obs = \<lparr>url = state_url st, timestamp_ms = ts,
                            image_path = save_next_screenshot ep_dir t, dom_path = None\<rparr>,
               meta = []\<rparr>] \<and>
           sleeps (c_world c') = sleeps (c_world c) + 1 \<and> c_env c' = e''"
proof -
  have ex: "execute computer a (c_env c) ((c_world c)\<lparr>rng := r'\<rparr>) =
              Inr (st, e'', (c_world c)\<lparr>rng := r', sleeps := sleeps (c_world c) + 1\<rparr>)"
    using fl cs
    by (auto simp: execute_def raises_def after_raise_def split: sum.splits prod.splits option.splits)
  show ?thesis
    using ok ra ex
    by (simp add: collect_step_def then_do_def Let_def case_prod_beta ts_ms_def split: list.splits)
qed

subsection \<open>Exceptions outside the handler\<close>

lemma open_raises_aborts:
  assumes "fst (call computer OpenWebBrowser e0) = None"
  shows "run_episode computer netloc cfg e0 w act = Inl EnvError"
  using assms
  by (simp add: run_episode_def episode_start_def then_do_def Let_def case_prod_beta)

lemma guard_navigate_raises:
  assumes "\<not> domain_allowed netloc (url (c_obs c)) (whitelist_domains cfg)"
    and "fst (call computer (Navigate (PStr (initial_url cfg))) (c_env c)) = None"
  shows "collect_step computer netloc cfg ep_dir t c = Inl EnvError"
  using assms by (simp add: collect_step_def then_do_def case_prod_beta)

lemma screen_size_raises:
  assumes "domain_allowed netloc (url (c_obs c)) (whitelist_domains cfg)"
    and "screen_size computer (c_env c) = None"
  shows "collect_step computer netloc cfg ep_dir t c = Inl EnvError"
proof -
  have "random_action computer (c_env c) (rng (c_world c)) = Inl EnvError"
    using assms(2) by (simp add: random_action_def choice_def then_do_def case_prod_beta acts_def)
  then show ?thesis using assms(1) by (simp add: collect_step_def then_do_def)
qed

lemma current_state_raises:
  assumes "domain_allowed netloc (url (c_obs c)) (whitelist_domains cfg)"
    and "random_action computer (c_env c) (rng (c_world c)) = Inr (a, r')"
    and "raises computer a (c_env c)"
    and "fst (call computer CurrentState (after_raise computer a (c_env c))) = None"
  shows "collect_step computer netloc cfg ep_dir t c = Inl EnvError"
proof -
  have "execute computer a (c_env c) ((c_world c)\<lparr>rng := r'\<rparr>) = Inl EnvError"
    using assms(3,4)
    by (cases "dispatch a")
       (auto simp: execute_def raises_def after_raise_def case_prod_beta)
  then show ?thesis using assms(1,2) by (simp add: collect_step_def then_do_def)
qed

lemma collect_steps_append:
  "collect_steps computer netloc cfg ep_dir (ts1 @ ts2) c =
     then_do (collect_steps computer netloc cfg ep_dir ts1 c)
       (collect_steps computer netloc cfg ep_dir ts2)"
proof (induction ts1 arbitrary: c)
  case Nil
  then show ?case by (simp add: then_do_def)
next
  case (Cons t ts1)
  then show ?case
    by (cases "collect_step computer netloc cfg ep_dir t c") (simp_all add: then_do_def)
qed

lemma collect_loop_append:
  "collect_loop computer netloc env_factory cfg (idx1 @ idx2) acc =
     then_do (collect_loop computer netloc env_factory cfg idx1 acc)
       (collect_loop computer netloc env_factory cfg idx2)"
proof (induction idx1 arbitrary: acc)
  case Nil
  then show ?case by (simp add: then_do_def)
next
  case (Cons epi rest)
  obtain eps w act where acc: "acc = (eps, w, act)" by (cases acc) auto
  show ?case
    unfolding acc
    by (cases "run_episode computer netloc cfg (env_factory epi) w act")
       (auto simp: then_do_def Cons.IH)
qed

lemma episode_raise_aborts:
  assumes k: "k < nat (episodes cfg)"
    and before: "collect_loop computer netloc env_factory cfg [0..<k]
                   ([], w0\<lparr>rng := seeded (seed cfg)\<rparr>, None) = Inr (eps, w, act)"
    and ep: "run_episode computer netloc cfg (env_factory k) w act = Inl e"
  shows "collect_episodes computer netloc env_factory seeded cfg w0 = Inl e"
proof -
  have "[0..<nat (episodes cfg)] = [0..<k] @ k # [Suc k..<nat (episodes cfg)]"
    using k upt_add_eq_append[of 0 k "nat (episodes cfg) - k"] by (simp add: upt_conv_Cons)
  then show ?thesis
    using before ep by (simp add: collect_episodes_def collect_loop_append then_do_def)
qed

lemma step_raise_aborts:
  assumes k: "k < nat (episodes cfg)"
    and before: "collect_loop computer netloc env_factory cfg [0..<k]
                   ([], w0\<lparr>rng := seeded (seed cfg)\<rparr>, None) = Inr (eps, w, act)"
    and start: "episode_start computer cfg (env_factory k) w act = Inr (eid, ep_dir, c0)"
    and t: "1 \<le> t" "t \<le> max_steps_per_episode cfg"
    and steps_before: "collect_steps computer netloc cfg ep_dir [1..t - 1] c0 = Inr c"
    and step: "collect_step computer netloc cfg ep_dir t c = Inl e"
  shows "collect_episodes computer netloc env_factory seeded cfg w0 = Inl e"
proof -
  have "[1..max_steps_per_episode cfg] = [1..t - 1] @ t # [t + 1..max_steps_per_episode cfg]"
    using t by (rule upto_split3)
  then have "collect_steps computer netloc cfg ep_dir [1..max_steps_per_episode cfg] c0 = Inl e"
    using steps_before step by (simp add: collect_steps_append then_do_def)
  then have "run_episode computer netloc cfg (env_factory k) w act = Inl e"
    using start by (simp add: run_episode_def then_do_def)
  with k before show ?thesis by (rule episode_raise_aborts)
qed

text \<open>
  C5, as amended. Every episode that \<^verbatim>\<open>collect_episodes\<close> returns holds exactly
  \<open>N\<close> step records with the indices \<open>1, ..., N\<close> in order, \<open>N\<close> being
  \<^verbatim>\<open>max_steps_per_episode\<close>, and there are \<^verbatim>\<open>episodes\<close> of them. The run returns
  whenever opening the browser, the guard's navigation, the state query and the screen
  size query do not raise, whatever the dispatched actions do: an action that raises
  inside the \<^verbatim>\<open>try\<close> block never shortens or aborts an episode. Such a step is recorded
  with the sampled action and the state that the state query returned, after one pause.
  An exception raised outside the \<^verbatim>\<open>try\<close> block is not handled and ends the whole run
  with no episode returned: one raised by opening the browser at the start of an episode,
  and one raised in a step by the guard's navigation, by the screen size query of the
  random policy, or by the state query that stands in for an action that raised.
\<close>

theorem collect_episodes_steps:
  "(\<forall>eps. collect_episodes computer netloc env_factory seeded cfg w0 = Inr eps \<longrightarrow>
      length eps = nat (episodes cfg) \<and>
      (\<forall>ep \<in> set eps. map step_index (steps ep) = [1..max_steps_per_episode cfg])) \<and>
   ((\<forall>e. fst (call computer OpenWebBrowser e) \<noteq> None) \<and>
    (\<forall>e. fst (call computer (Navigate (PStr (initial_url cfg))) e) \<noteq> None) \<and>
    (\<forall>e. fst (call computer CurrentState e) \<noteq> None) \<and>
    (\<forall>e. screen_size computer e \<noteq> None) \<longrightarrow>
      (\<exists>eps. collect_episodes computer netloc env_factory seeded cfg w0 = Inr eps)) \<and>
   (\<forall>c a r' st e'' ep_dir t.
      domain_allowed netloc (url (c_obs c)) (whitelist_domains cfg) \<and>
      random_action computer (c_env c) (rng (c_world c)) = Inr (a, r') \<and>
      raises computer a (c_env c) \<and>
      call computer CurrentState (after_raise computer a (c_env c)) = (Some st, e'') \<longrightarrow>
      (\<exists>c' ts. collect_step computer netloc cfg ep_dir t c = Inr c' \<and>
         c_steps c' = c_steps c @
           [\<lparr>step_index = t, obs = c_obs c, action = a,
             next_obs = \<lparr>url = state_url st, timestamp_ms = ts,
                          image_path = save_next_screenshot ep_dir t, dom_path = None\<rparr>,
             meta = []\<rparr>] \<and>
         sleeps (c_world c') = sleeps (c_world c) + 1 \<and> c_env c' = e'')) \<and>
   (\<forall>k eps w act.
      k < nat (episodes cfg) \<and>
      collect_loop computer netloc env_factory cfg [0..<k]
        ([], w0\<lparr>rng := seeded (seed cfg)\<rparr>, None) = Inr (eps, w, act) \<and>
      fst (call computer OpenWebBrowser (env_factory k)) = None \<longrightarrow>
      collect_episodes computer netloc env_factory seeded cfg w0 = Inl EnvError) \<and>
   (\<forall>k eps w act eid ep_dir c0 t c e.
      k < nat (episodes cfg) \<and>
      collect_loop computer netloc env_factory cfg [0..<k]
        ([], w0\<lparr>rng := seeded (seed cfg)\<rparr>, None) = Inr (eps, w, act) \<and>
      episode_start computer cfg (env_factory k) w act = Inr (eid, ep_dir, c0) \<and>
      1 \<le> t \<and> t \<le> max_steps_per_episode cfg \<and>
      collect_steps computer netloc cfg ep_dir [1..t - 1] c0 = Inr c \<and>
      collect_step computer netloc cfg ep_dir t c = Inl e \<longrightarrow>
      collect_episodes computer netloc env_factory seeded cfg w0 = Inl e) \<and>
   (\<forall>c ep_dir t.
      \<not> domain_allowed netloc (url (c_obs c)) (whitelist_domains cfg) \<and>
      fst (call computer (Navigate (PStr (initial_url cfg))) (c_env c)) = None \<longrightarrow>
      collect_step computer netloc cfg ep_dir t c = Inl EnvError) \<and>
   (\<forall>c ep_dir t.
      domain_allowed netloc (url (c_obs c)) (whitelist_domains cfg) \<and>
      screen_size computer (c_env c) = None \<longrightarrow>
      collect_step computer netloc cfg ep_dir t c = Inl EnvError) \<and>
   (\<forall>c a r' ep_dir t.
      domain_allowed netloc (url (c_obs c)) (whitelist_domains cfg) \<and>
      random_action computer (c_env c) (rng (c_world c)) = Inr (a, r') \<and>
      raises computer a (c_env c) \<and>
      fst (call computer CurrentState (after_raise computer a (c_env c))) = None \<longrightarrow>
      collect_step computer netloc cfg ep_dir t c = Inl EnvError)"
proof (intro conjI allI impI)
  fix eps
  assume "collect_episodes computer netloc env_factory seeded cfg w0 = Inr eps"
  from collect_episodes_indices[OF this]
  show "length eps = nat (episodes cfg)"
    and "\<forall>ep \<in> set eps. map step_index (steps ep) = [1..max_steps_per_episode cfg]"
    by auto
next
  assume "(\<forall>e. fst (call computer OpenWebBrowser e) \<noteq> None) \<and>
    (\<forall>e. fst (call computer (Navigate (PStr (initial_url cfg))) e) \<noteq> None) \<and>
    (\<forall>e. fst (call computer CurrentState e) \<noteq> None) \<and>
    (\<forall>e. screen_size computer e \<noteq> None)"
  then show "\<exists>eps. collect_episodes computer netloc env_factory seeded cfg w0 = Inr eps"
    using collect_episodes_returns[of computer cfg netloc env_factory seeded w0] by blast
next
  fix c :: "'a collector" and a r' st e'' ep_dir t
  assume "domain_allowed netloc (url (c_obs c)) (whitelist_domains cfg) \<and>
      random_action computer (c_env c) (rng (c_world c)) = Inr (a, r') \<and>
      raises computer a (c_env c) \<and>
      call computer CurrentState (after_raise computer a (c_env c)) = (Some st, e'')"
  then show "\<exists>c' ts. collect_step computer netloc cfg ep_dir t c = Inr c' \<and>
         c_steps c' = c_steps c @
           [\<lparr>step_index = t, obs = c_obs c, action = a,
             next_obs = \<lparr>url = state_url st, timestamp_ms = ts,
                          image_path = save_next_screenshot ep_dir t, dom_path = None\<rparr>,
             meta = []\<rparr>] \<and>
         sleeps (c_world c') = sleeps (c_world c) + 1 \<and> c_env c' = e''"
    using collect_step_failure[of netloc c cfg computer a r' st e'' ep_dir t] by blast
next
  fix k eps w act
  assume a: "k < nat (episodes cfg) \<and>
      collect_loop computer netloc env_factory cfg [0..<k]
        ([], w0\<lparr>rng := seeded (seed cfg)\<rparr>, None) = Inr (eps, w, act) \<and>
      fst (call computer OpenWebBrowser (env_factory k)) = None"
  then have "run_episode computer netloc cfg (env_factory k) w act = Inl EnvError"
    by (simp add: open_raises_aborts)
  with a show "collect_episodes computer netloc env_factory seeded cfg w0 = Inl EnvError"
    using episode_raise_aborts[where k=k and eps=eps and w=w and act=act and e=EnvError]
    by blast
next
  fix k eps w act eid ep_dir c0 t and c :: "'a collector" and e
  assume "k < nat (episodes cfg) \<and>
      collect_loop computer netloc env_factory cfg [0..<k]
        ([], w0\<lparr>rng := seeded (seed cfg)\<rparr>, None) = Inr (eps, w, act) \<and>
      episode_start computer cfg (env_factory k) w act = Inr (eid, ep_dir, c0) \<and>
      1 \<le> t \<and> t \<le> max_steps_per_episode cfg \<and>
      collect_steps computer netloc cfg ep_dir [1..t - 1] c0 = Inr c \<and>
      collect_step computer netloc cfg ep_dir t c = Inl e"
  then show "collect_episodes computer netloc env_factory seeded cfg w0 = Inl e"
    using step_raise_aborts[where k=k and eps=eps and w=w and act=act and eid=eid
          and ep_dir=ep_dir and ?c0.0=c0 and t=t and c=c and e=e]
    by blast
next
  fix c :: "'a collector" and ep_dir t
  assume "\<not> domain_allowed netloc (url (c_obs c)) (whitelist_domains cfg) \<and>
      fst (call computer (Navigate (PStr (initial_url cfg))) (c_env c)) = None"
  then show "collect_step computer netloc cfg ep_dir t c = Inl EnvError"
    by (simp add: guard_navigate_raises)
next
  fix c :: "'a collector" and ep_dir t
  assume "domain_allowed netloc (url (c_obs c)) (whitelist_domains cfg) \<and>
      screen_size computer (c_env c) = None"
  then show "collect_step computer netloc cfg ep_dir t c = Inl EnvError"
    by (simp add: screen_size_raises)
next
  fix c :: "'a collector" and a r' ep_dir t
  assume "domain_allowed netloc (url (c_obs c)) (whitelist_domains cfg) \<and>
      random_action computer (c_env c) (rng (c_world c)) = Inr (a, r') \<and>
      raises computer a (c_env c) \<and>
      fst (call computer CurrentState (after_raise computer a (c_env c))) = None"
  then show "collect_step computer netloc cfg ep_dir t c = Inl EnvError"
    using current_state_raises[of netloc c cfg computer a r' ep_dir t] by blast
qed

text \<open>
  C5, witness: five steps on an environment whose third dispatched operation raises. The
  run returns one episode with the indices 1 to 5, and in the state before the third
  step the sampled \<^verbatim>\<open>wait_5_seconds\<close> does raise. On an environment where opening the
  browser raises, the run ends with that exception before any step.
\<close>

theorem collect_episodes_steps_witness:
  "(\<exists>eps. collect_episodes flaky_computer demo_netloc (\<lambda>epi. 0)
            (\<lambda>s. \<lparr>normals = [], draws = [4, 4, 4, 4, 4]\<rparr>) five_cfg demo_world = Inr eps \<and>
          length eps = 1 \<and>
          list_all (\<lambda>ep. map step_index (steps ep) = [1..5]) eps) \<and>
   raises flaky_computer \<lparr>name = ''wait_5_seconds'', args = []\<rparr> 2 \<and>
   fst (call shut_computer OpenWebBrowser ''https://example.com/'') = None \<and>
   collect_episodes shut_computer demo_netloc (\<lambda>epi. ''https://example.com/'')
     (\<lambda>s. \<lparr>normals = [], draws = [4]\<rparr>) five_cfg demo_world = Inl EnvError"
proof -
  note inst = collect_episodes_steps[of flaky_computer demo_netloc "\<lambda>epi. 0"
      "\<lambda>s. \<lparr>normals = [], draws = [4, 4, 4, 4, 4]\<rparr>" five_cfg demo_world]
  have hyp: "(\<forall>e. fst (call flaky_computer OpenWebBrowser e) \<noteq> None) \<and>
    (\<forall>e. fst (call flaky_computer (Navigate (PStr (initial_url five_cfg))) e) \<noteq> None) \<and>
    (\<forall>e. fst (call flaky_computer CurrentState e) \<noteq> None) \<and>
    (\<forall>e. screen_size flaky_computer e \<noteq> None)"
    by (simp add: flaky_computer_def)
  from inst[THEN conjunct2, THEN conjunct1] hyp obtain eps where
    e: "collect_episodes flaky_computer demo_netloc (\<lambda>epi. 0)
            (\<lambda>s. \<lparr>normals = [], draws = [4, 4, 4, 4, 4]\<rparr>) five_cfg demo_world = Inr eps"
    by blast
  from inst[THEN conjunct1] e have "length eps = nat (episodes five_cfg)"
    and "\<forall>ep \<in> set eps. map step_index (steps ep) = [1..max_steps_per_episode five_cfg]"
    by blast+
  then have "length eps = 1" and "list_all (\<lambda>ep. map step_index (steps ep) = [1..5]) eps"
    by (simp_all add: five_cfg_def list_all_iff)
  moreover have "raises flaky_computer \<lparr>name = ''wait_5_seconds'', args = []\<rparr> 2"
    by (simp add: raises_def dispatch_def flaky_computer_def)
  moreover have o: "fst (call shut_computer OpenWebBrowser ''https://example.com/'') = None"
    by (simp add: shut_computer_def)
  moreover have "collect_episodes shut_computer demo_netloc (\<lambda>epi. ''https://example.com/'')
     (\<lambda>s. \<lparr>normals = [], draws = [4]\<rparr>) five_cfg demo_world = Inl EnvError"
  proof -
    note shut = collect_episodes_steps[of shut_computer demo_netloc "\<lambda>epi. ''https://example.com/''"
      "\<lambda>s. \<lparr>normals = [], draws = [4]\<rparr>" five_cfg demo_world]
    have k: "(0::nat) < nat (episodes five_cfg)" by (simp add: five_cfg_def)
    have l: "collect_loop shut_computer demo_netloc (\<lambda>epi. ''https://example.com/'') five_cfg [0..<0]
               ([], demo_world\<lparr>rng := \<lparr>normals = [], draws = [4]\<rparr>\<rparr>, None) =
             Inr ([], demo_world\<lparr>rng := \<lparr>normals = [], draws = [4]\<rparr>\<rparr>, None)"
      by simp
    from shut[THEN conjunct2, THEN conjunct2, THEN conjunct2, THEN conjunct1] k l o
    show ?thesis by blast
  qed
  ultimately show ?thesis using e by blast
qed

text \<open>
  C5, counterexample to the claim as stated (an environment operation that raises never
  aborts the episode). With the whitelist \<open>["example.com"]\<close> and a browser that opens
  on \<open>evil.com\<close>, the guard's navigation in step 1 raises and the run ends with that
  exception: no episode is produced. Without a whitelist, on an environment where every
  operation after opening raises, the sampled action of step 1 fails, the state query
  that replaces it raises too, and the run ends the same way. So it does where opening
  the browser raises, and where the screen size query of the random policy does.
\<close>

theorem collect_aborts_outside_try:
  "collect_episodes blocked_computer demo_netloc (\<lambda>epi. ''https://evil.com/'')
     (\<lambda>s. \<lparr>normals = [], draws = [3, 5, 7]\<rparr>) guard_cfg demo_world = Inl EnvError \<and>
   collect_episodes dead_computer demo_netloc (\<lambda>epi. ''https://example.com/'')
     (\<lambda>s. \<lparr>normals = [], draws = [4]\<rparr>) five_cfg demo_world = Inl EnvError \<and>
   collect_episodes shut_computer demo_netloc (\<lambda>epi. ''https://example.com/'')
     (\<lambda>s. \<lparr>normals = [], draws = [4]\<rparr>) five_cfg demo_world = Inl EnvError \<and>
   collect_episodes blind_computer demo_netloc (\<lambda>epi. ''https://example.com/'')
     (\<lambda>s. \<lparr>normals = [], draws = [4]\<rparr>) five_cfg demo_world = Inl EnvError"
  by (simp add: collect_episodes_def run_episode_def episode_start_def collect_step_def then_do_def
        random_action_def execute_def dispatch_def item_def choice_def randint_def next_draw_def
        acts_def blocked_computer_def dead_computer_def shut_computer_def blind_computer_def
        page_def guard_cfg_def five_cfg_def
        demo_world_def demo_netloc_def domain_allowed_def endswith_def uuid4_def ts_ms_def
        save_screenshot_def save_next_screenshot_def upto_rec1 Let_def)

end
